theory Spec2Isabelle
  imports Main "HOL-Library.AList" "HOL-Library.Sublist"
begin

section \<open>Python EZ Backup: the copy engine and its caller\<close>

text \<open>
  A shallow embedding of \<^verbatim>\<open>backup_helpers.py\<close> (the worker \<^verbatim>\<open>BackupSelection\<close>,
  \<^verbatim>\<open>check_existing_file\<close>, \<^verbatim>\<open>count_total_files\<close>) and of the parts of
  \<^verbatim>\<open>main.py\<close> that drive it (\<^verbatim>\<open>MainWindow\<close>: the slots connected to the
  worker signals, \<^verbatim>\<open>enqueue\<close>, \<^verbatim>\<open>kill_all\<close>, \<^verbatim>\<open>cleanup\<close>, \<^verbatim>\<open>run_backup\<close>).

  Conventions of the model.
  \<^item> A path is the list of its components; \<^verbatim>\<open>Path.name\<close> is the last component and
    \<^verbatim>\<open>os.path.join\<close> appends one.
  \<^item> The operating system is an explicit parameter: a record of operations over a
    file-system state. Every call that can fail in Python returns the exception as a
    value, so each \<^verbatim>\<open>try\<close>/\<^verbatim>\<open>except\<close> of the source is a case distinction.
  \<^item> A run of a worker returns the list of signals it emitted, in order, the
    file-system state it left, and how the method ended. The list also holds one marker
    \<open>Copy2 s d\<close> for every call \<^verbatim>\<open>shutil.copy2(s, d)\<close>, placed where the call happens;
    the marker is not a signal, it records the call.
  \<^item> Emitting a Qt signal is assumed to succeed.
  \<^item> Workers of the pool are run one after the other, each to its end; the
    interleaving of two workers' file operations is not modelled.
\<close>

subsection \<open>Paths and strings\<close>

type_synonym path = "string list"

text \<open>\<^verbatim>\<open>Path(p).name\<close>: the final component, the empty string for a root.\<close>

definition name_of :: "path \<Rightarrow> string" where
  "name_of p = (if p = [] then [] else last p)"

text \<open>\<^verbatim>\<open>os.path.join(p, n)\<close> for a single component; joining the empty string only
  adds a trailing separator, which names the same path.\<close>

definition join :: "path \<Rightarrow> string \<Rightarrow> path" where
  "join p n = (if n = [] then p else p @ [n])"

text \<open>\<^verbatim>\<open>s.endswith(t)\<close>.\<close>

definition endswith :: "string \<Rightarrow> string \<Rightarrow> bool" where
  "endswith s t = (length t \<le> length s \<and> drop (length s - length t) s = t)"

text \<open>\<^verbatim>\<open>s.split(sep)\<close> for a one-character separator: it never returns the empty list.\<close>

fun split :: "char \<Rightarrow> string \<Rightarrow> string list" where
  "split sep [] = [[]]"
| "split sep (c # cs) =
     (if c = sep then [] # split sep cs
      else (c # hd (split sep cs)) # tl (split sep cs))"

subsection \<open>Exceptions, the operating system, signals\<close>

text \<open>
  \<open>OSError\<close> stands for \<^verbatim>\<open>OSError\<close> and its subclasses, \<open>Exception\<close> for any other
  subclass of \<^verbatim>\<open>Exception\<close>, \<open>BaseException\<close> for an exception outside the
  \<^verbatim>\<open>Exception\<close> hierarchy (which \<^verbatim>\<open>except Exception\<close> does not catch).
\<close>

datatype exn = WorkerKilledException | OSError | Exception | BaseException

fun is_Exception :: "exn \<Rightarrow> bool" where
  "is_Exception BaseException = False"
| "is_Exception _ = True"

datatype outcome = Returned | Raised exn

record 'fs env =
  isdir :: "'fs \<Rightarrow> path \<Rightarrow> bool"
  isfile :: "'fs \<Rightarrow> path \<Rightarrow> bool"
  listdir :: "'fs \<Rightarrow> path \<Rightarrow> exn + string list"
  getsize :: "'fs \<Rightarrow> path \<Rightarrow> exn + nat"
  getmtime :: "'fs \<Rightarrow> path \<Rightarrow> exn + int"
  makedirs :: "'fs \<Rightarrow> path \<Rightarrow> exn option \<times> 'fs"
  copy2 :: "'fs \<Rightarrow> path \<Rightarrow> path \<Rightarrow> exn option \<times> 'fs"
  walk :: "'fs \<Rightarrow> path \<Rightarrow> (path \<times> string list \<times> string list) list"

text \<open>The fields of \<^verbatim>\<open>BackupSelection\<close> (the pool and the signal object are left out).\<close>

record worker =
  src :: path
  dst :: path
  root :: bool
  ignore_files :: "path list"
  ignore_extensions :: "string list"
  is_killed :: bool

text \<open>\<^verbatim>\<open>BackupSelection.__init__\<close>: a new worker is never killed.\<close>

definition BackupSelection ::
  "path \<Rightarrow> path \<Rightarrow> path list \<Rightarrow> string list \<Rightarrow> bool \<Rightarrow> worker" where
  "BackupSelection source destination ignore_files' ignore_extensions' root_input =
     \<lparr>src = source, dst = destination, root = root_input,
      ignore_files = ignore_files', ignore_extensions = ignore_extensions',
      is_killed = False\<rparr>"

text \<open>The third component of the error tuple, with the path it mentions.\<close>

datatype context_message =
    Creating_directory path
  | Overwriting_file path
  | Copying_new_file path
  | Running_backup path

datatype event =
    Error exn context_message
  | Progress nat
  | Memory_count nat
  | Status string
  | Finished
  | New_thread worker
  | Copy2 path path

subsection \<open>\<^verbatim>\<open>check_existing_file\<close>\<close>

definition check_existing_file :: "'fs env \<Rightarrow> 'fs \<Rightarrow> path \<Rightarrow> path \<Rightarrow> exn + bool" where
  "check_existing_file env fs source dest =
     (case getmtime env fs source of
        Inl e \<Rightarrow> Inl e
      | Inr src_time \<Rightarrow>
          (case getmtime env fs dest of
             Inl e \<Rightarrow> Inl e
           | Inr dest_time \<Rightarrow> Inr (src_time > dest_time)))"

subsection \<open>\<^verbatim>\<open>BackupSelection.run\<close>\<close>

text \<open>
  The copy decision, lines 200 to 228 (a child of a directory) and 237 to 263 (a file
  selected by the user) of \<^verbatim>\<open>backup_helpers.py\<close>. The two places differ only in the
  path whose presence is tested (\<open>tested\<close>) and in the second argument of
  \<^verbatim>\<open>shutil.copy2\<close> (\<open>target\<close>): for a child both are \<^verbatim>\<open>dst_name\<close>; for a selected
  file the test is on \<^verbatim>\<open>os.path.join(self.dst, self.src.name)\<close> and the copy goes to
  \<^verbatim>\<open>self.dst\<close>.
\<close>

definition copy_decision ::
  "'fs env \<Rightarrow> 'fs \<Rightarrow> path \<Rightarrow> path \<Rightarrow> path \<Rightarrow> event list \<times> 'fs \<times> outcome" where
  "copy_decision env fs source tested target =
     (case getsize env fs source of
        Inl e \<Rightarrow> ([], fs, Raised e)
      | Inr file_size \<Rightarrow>
          if isfile env fs tested then
            (case check_existing_file env fs source tested of
               Inl e \<Rightarrow> ([], fs, Raised e)
             | Inr newer \<Rightarrow>
                 if newer then
                   (case copy2 env fs source target of
                      (None, fs') \<Rightarrow>
                        ([Status (name_of source @ ''...''), Copy2 source target,
                          Memory_count file_size, Progress 1], fs', Returned)
                    | (Some e, fs') \<Rightarrow>
                        if e = OSError then
                          ([Status (name_of source @ ''...''), Copy2 source target,
                            Error OSError (Overwriting_file source), Progress 1], fs', Returned)
                        else
                          ([Status (name_of source @ ''...''), Copy2 source target],
                           fs', Raised e))
                 else ([Progress 1], fs, Returned))
          else
            (case copy2 env fs source target of
               (None, fs') \<Rightarrow>
                 ([Status (name_of source @ ''...''), Copy2 source target,
                   Progress 1, Memory_count file_size], fs', Returned)
             | (Some e, fs') \<Rightarrow>
                 if e = OSError then
                   ([Status (name_of source @ ''...''), Copy2 source target,
                     Error OSError (Copying_new_file source)], fs', Returned)
                 else
                   ([Status (name_of source @ ''...''), Copy2 source target],
                    fs', Raised e)))"

text \<open>The inner loop over \<^verbatim>\<open>self.ignore_extensions\<close>: does some extension match?\<close>

primrec ignore_this :: "string list \<Rightarrow> string \<Rightarrow> bool" where
  "ignore_this [] name = False"
| "ignore_this (extension # rest) name =
     (if endswith name extension then True else ignore_this rest name)"

text \<open>
  One pass through the body of \<^verbatim>\<open>for name in names\<close>, after the test of the kill
  flag. \<open>dst'\<close> is \<^verbatim>\<open>self.dst\<close> as it is when the loop runs.
\<close>

definition run_child ::
  "'fs env \<Rightarrow> worker \<Rightarrow> path \<Rightarrow> 'fs \<Rightarrow> string \<Rightarrow> event list \<times> 'fs \<times> outcome" where
  "run_child env w dst' fs name =
     (let src_name = join (src w) name; dst_name = join dst' name in
      if src_name \<in> set (ignore_files w) then
        ([Progress 1, Status (name_of src_name)], fs, Returned)
      else if isdir env fs src_name then
        ([New_thread (BackupSelection src_name dst_name (ignore_files w)
                        (ignore_extensions w) False)], fs, Returned)
      else if isfile env fs src_name then
        (if ignore_this (ignore_extensions w) name then
           ([Progress 1, Status (''ignoring extension: '' @ name_of src_name @ ''...'')],
            fs, Returned)
         else copy_decision env fs src_name dst_name dst_name)
      else ([], fs, Returned))"

text \<open>
  The loop over the names. \<open>kills i\<close> tells whether a call of \<^verbatim>\<open>kill()\<close> from the
  window's thread has reached this worker before the test that opens pass \<open>i\<close>; the flag
  read there is therefore \<open>is_killed w \<or> kills i\<close>.
\<close>

fun run_names ::
  "'fs env \<Rightarrow> (nat \<Rightarrow> bool) \<Rightarrow> worker \<Rightarrow> path \<Rightarrow> nat \<Rightarrow> 'fs \<Rightarrow> string list
     \<Rightarrow> event list \<times> 'fs \<times> outcome" where
  "run_names env kills w dst' i fs [] = ([], fs, Returned)"
| "run_names env kills w dst' i fs (name # names) =
     (if is_killed w \<or> kills i then ([], fs, Raised WorkerKilledException)
      else
        (case run_child env w dst' fs name of
           (evs, fs', Raised e) \<Rightarrow> (evs, fs', Raised e)
         | (evs, fs', Returned) \<Rightarrow>
             (case run_names env kills w dst' (Suc i) fs' names of
                (evs', fs'', out) \<Rightarrow> (evs @ evs', fs'', out))))"

text \<open>\<^verbatim>\<open>names = os.listdir(self.src)\<close> and the loop.\<close>

definition run_listing ::
  "'fs env \<Rightarrow> (nat \<Rightarrow> bool) \<Rightarrow> worker \<Rightarrow> path \<Rightarrow> 'fs \<Rightarrow> event list \<times> 'fs \<times> outcome" where
  "run_listing env kills w dst' fs =
     (case listdir env fs (src w) of
        Inl e \<Rightarrow> ([], fs, Raised e)
      | Inr names \<Rightarrow> run_names env kills w dst' 0 fs names)"

text \<open>The branch \<^verbatim>\<open>if os.path.isdir(self.src)\<close>.\<close>

definition run_dir ::
  "'fs env \<Rightarrow> (nat \<Rightarrow> bool) \<Rightarrow> worker \<Rightarrow> 'fs \<Rightarrow> event list \<times> 'fs \<times> outcome" where
  "run_dir env kills w fs =
     (case (if \<not> isdir env fs (dst w) then makedirs env fs (dst w) else (None, fs)) of
        (Some e, fs1) \<Rightarrow> ([], fs1, Raised e)
      | (None, fs1) \<Rightarrow>
          if root w then
            (let parent_dir = name_of (src w) in
             case makedirs env fs1 (join (dst w) parent_dir) of
               (Some e, fs2) \<Rightarrow>
                 if e = OSError then
                   ([Error OSError (Creating_directory (join (dst w) parent_dir))],
                    fs2, Returned)
                 else ([], fs2, Raised e)
             | (None, fs2) \<Rightarrow> run_listing env kills w (join (dst w) parent_dir) fs2)
          else run_listing env kills w (dst w) fs1)"

text \<open>The branch \<^verbatim>\<open>elif os.path.isfile(self.src)\<close>.\<close>

definition run_file :: "'fs env \<Rightarrow> worker \<Rightarrow> 'fs \<Rightarrow> event list \<times> 'fs \<times> outcome" where
  "run_file env w fs =
     (if ignore_this (ignore_extensions w) (name_of (src w)) then
        ([Status (name_of (src w) @ ''...''), Progress 1], fs, Returned)
      else copy_decision env fs (src w) (join (dst w) (name_of (src w))) (dst w))"

text \<open>The body of the \<^verbatim>\<open>try\<close> block.\<close>

definition run_try ::
  "'fs env \<Rightarrow> (nat \<Rightarrow> bool) \<Rightarrow> worker \<Rightarrow> 'fs \<Rightarrow> event list \<times> 'fs \<times> outcome" where
  "run_try env kills w fs =
     (if isdir env fs (src w) then run_dir env kills w fs
      else if isfile env fs (src w) then run_file env w fs
      else ([], fs, Returned))"

text \<open>
  The handlers and the \<^verbatim>\<open>finally\<close> clause. The outcome returned is what the caller
  of \<^verbatim>\<open>run\<close> sees: \<open>Raised e\<close> when \<open>e\<close> leaves the method.
\<close>

definition run ::
  "'fs env \<Rightarrow> (nat \<Rightarrow> bool) \<Rightarrow> worker \<Rightarrow> 'fs \<Rightarrow> event list \<times> 'fs \<times> outcome" where
  "run env kills w fs =
     (case run_try env kills w fs of
        (evs, fs', Returned) \<Rightarrow> (evs @ [Finished], fs', Returned)
      | (evs, fs', Raised e) \<Rightarrow>
          if e = WorkerKilledException then
            (evs @ [Status ''worker killed'', Finished], fs', Returned)
          else if is_Exception e then
            (evs @ [Error e (Running_backup (src w)), Finished], fs', Returned)
          else (evs @ [Finished], fs', Raised e))"

subsection \<open>\<^verbatim>\<open>count_total_files\<close>\<close>

text \<open>
  The inner loop adds \<^verbatim>\<open>len(files)\<close> for every triple that \<^verbatim>\<open>os.walk\<close> yields; the
  outer loop goes through the selection.
\<close>

definition count_walked :: "nat \<Rightarrow> (path \<times> string list \<times> string list) list \<Rightarrow> nat" where
  "count_walked count triples =
     foldl (\<lambda>count' (root_dir, cur_dir, files). count' + length files) count triples"

definition count_item :: "'fs env \<Rightarrow> 'fs \<Rightarrow> nat \<Rightarrow> path \<Rightarrow> nat" where
  "count_item env fs count item =
     (if isfile env fs item then count + 1
      else if isdir env fs item then count_walked count (walk env fs item)
      else count)"

definition count_total_files :: "'fs env \<Rightarrow> 'fs \<Rightarrow> path list \<Rightarrow> nat" where
  "count_total_files env fs input_select = foldl (count_item env fs) 0 input_select"

subsection \<open>\<^verbatim>\<open>MainWindow\<close>\<close>

text \<open>
  The attributes of the window that the methods below read or write. A widget is
  modelled by the property the code sets or reads: the two list models by their rows,
  the line edit and the label by their text, the progress bar by its value and its
  maximum (the clipping that the bar applies to a value outside its range is left out).
  \<open>threadpool\<close> is the queue of started workers that have not run yet, each given by
  its position in \<open>workers\<close>: the pool and the list \<open>workers\<close> hold the same objects,
  so \<^verbatim>\<open>kill()\<close> on a member of the list is seen by the pool. \<open>backup_logs\<close> holds, for
  every log file written, its file count and its byte total; \<open>messages\<close> holds the
  texts of the message boxes shown. \<open>button_exit_clicked\<close> lists the slots connected
  to the exit button, in the order of the calls of \<^verbatim>\<open>connect\<close>. \<open>gui_unlocked\<close> stands
  for the buttons and inputs that \<^verbatim>\<open>set_gui_state\<close> enables and disables together.
\<close>

datatype slot = Exit_application | Cancel_backup_slot

record main_window =
  workers :: "worker list"
  threadpool :: "nat list"
  progress :: nat
  total_memory :: nat
  root_backup_dir :: "path option"
  included_paths_list :: "path list"
  excluded_paths_list :: "path list"
  excluded_extensions_list :: "string list"
  files_to_include_model :: "path list"
  files_to_exclude_model :: "path list"
  input_exclude_by :: string
  label_root_backup_dir :: string
  progress_bar_value :: nat
  progress_bar_maximum :: nat
  gui_unlocked :: bool
  button_exit_enabled :: bool
  button_exit_text :: string
  button_exit_clicked :: "slot list"
  backup_logs :: "(nat \<times> nat) list"
  messages :: "string list"

text \<open>\<^verbatim>\<open>MainWindow.__init__\<close>; a new \<^verbatim>\<open>QProgressBar\<close> has the range 0 to 100.\<close>

definition init_window :: main_window where
  "init_window =
     \<lparr>workers = [], threadpool = [], progress = 0, total_memory = 0,
      root_backup_dir = None, included_paths_list = [], excluded_paths_list = [],
      excluded_extensions_list = [], files_to_include_model = [],
      files_to_exclude_model = [], input_exclude_by = [], label_root_backup_dir = [],
      progress_bar_value = 0, progress_bar_maximum = 100, gui_unlocked = True,
      button_exit_enabled = True, button_exit_text = ''Exit'',
      button_exit_clicked = [Exit_application], backup_logs = [], messages = []\<rparr>"

definition set_gui_state :: "bool \<Rightarrow> main_window \<Rightarrow> main_window" where
  "set_gui_state unlocked mw =
     mw\<lparr>gui_unlocked := unlocked, button_exit_enabled := unlocked\<rparr>"

definition update_status :: "string \<Rightarrow> main_window \<Rightarrow> main_window" where
  "update_status status_message mw = mw\<lparr>label_root_backup_dir := status_message\<rparr>"

definition update_memory_count :: "nat \<Rightarrow> main_window \<Rightarrow> main_window" where
  "update_memory_count increase_by mw = mw\<lparr>total_memory := total_memory mw + increase_by\<rparr>"

definition set_max_progress_value :: "nat \<Rightarrow> main_window \<Rightarrow> main_window" where
  "set_max_progress_value max_value mw = mw\<lparr>progress_bar_maximum := max_value\<rparr>"

definition save_backup_log :: "main_window \<Rightarrow> main_window" where
  "save_backup_log mw =
     mw\<lparr>backup_logs := backup_logs mw @ [(progress_bar_maximum mw, total_memory mw)]\<rparr>"

definition cleanup :: "main_window \<Rightarrow> main_window" where
  "cleanup mw =
     mw\<lparr>root_backup_dir := None,
        included_paths_list := [],
        excluded_paths_list := [],
        excluded_extensions_list := [],
        label_root_backup_dir := [],
        files_to_include_model := [],
        files_to_exclude_model := [],
        input_exclude_by := [],
        progress_bar_value := 0\<rparr>"

definition update_progress :: "nat \<Rightarrow> main_window \<Rightarrow> main_window" where
  "update_progress n mw =
     (let mw1 = mw\<lparr>progress := progress mw + n\<rparr>;
          mw2 = mw1\<lparr>progress_bar_value := progress mw1\<rparr>
      in if progress mw2 = progress_bar_maximum mw2 then
           (let mw3 = save_backup_log mw2;
                mw4 = mw3\<lparr>messages := messages mw3 @
                  [''Backup Complete! See backup log file in backup directory for details.'']\<rparr>
            in set_gui_state True (cleanup mw4))
         else mw2)"

definition enqueue :: "worker \<Rightarrow> main_window \<Rightarrow> main_window" where
  "enqueue worker' mw =
     mw\<lparr>workers := workers mw @ [worker'],
        threadpool := threadpool mw @ [length (workers mw)]\<rparr>"

text \<open>\<^verbatim>\<open>BackupSelection.kill\<close> and \<^verbatim>\<open>MainWindow.kill_all\<close>.\<close>

definition kill :: "worker \<Rightarrow> worker" where
  "kill w = w\<lparr>is_killed := True\<rparr>"

definition kill_all :: "main_window \<Rightarrow> main_window" where
  "kill_all mw = mw\<lparr>workers := map kill (workers mw)\<rparr>"

definition cancel_backup :: "main_window \<Rightarrow> main_window" where
  "cancel_backup mw =
     (let mw1 = set_gui_state False (mw\<lparr>button_exit_enabled := False\<rparr>);
          mw2 = kill_all mw1;
          mw3 = mw2\<lparr>button_exit_clicked := button_exit_clicked mw2 @ [Exit_application],
                    button_exit_text := ''Exit''\<rparr>;
          mw4 = update_status [] mw3
      in set_gui_state True mw4)"

text \<open>\<^verbatim>\<open>MainWindow.closeEvent\<close>, without the window it closes.\<close>

definition closeEvent :: "main_window \<Rightarrow> main_window" where
  "closeEvent mw = kill_all mw"

text \<open>
  \<^verbatim>\<open>MainWindow.process_error\<close>; the argument is the fourth component of the error
  tuple, the text for the message box.
\<close>

definition process_error :: "string \<Rightarrow> main_window \<Rightarrow> main_window" where
  "process_error window_message mw =
     (let mw1 = cancel_backup mw
      in mw1\<lparr>messages := messages mw1 @ [window_message]\<rparr>)"

text \<open>The text that \<^verbatim>\<open>BackupSelection.run\<close> puts fourth in the error tuple.\<close>

fun window_message_of :: "context_message \<Rightarrow> string" where
  "window_message_of (Running_backup p) =
     ''Error backing up files. See error log for more information.''"
| "window_message_of m = ''Error backing up files. See error log for more information''"

text \<open>
  The methods behind the selection buttons. The argument is what the file dialog
  returned: \<open>None\<close> when the user closed it without a choice.
\<close>

definition add_directory :: "path option \<Rightarrow> main_window \<Rightarrow> main_window" where
  "add_directory selected_directory mw =
     (case selected_directory of
        None \<Rightarrow> mw
      | Some d \<Rightarrow>
          mw\<lparr>included_paths_list := included_paths_list mw @ [d],
             files_to_include_model := files_to_include_model mw @ [d]\<rparr>)"

definition add_files :: "path list \<Rightarrow> main_window \<Rightarrow> main_window" where
  "add_files selected_files mw =
     mw\<lparr>included_paths_list := included_paths_list mw @ selected_files,
        files_to_include_model := files_to_include_model mw @ selected_files\<rparr>"

definition exclude_directory :: "path option \<Rightarrow> main_window \<Rightarrow> main_window" where
  "exclude_directory selected_directory mw =
     (case selected_directory of
        None \<Rightarrow> mw
      | Some d \<Rightarrow>
          mw\<lparr>excluded_paths_list := excluded_paths_list mw @ [d],
             files_to_exclude_model := files_to_exclude_model mw @ [d]\<rparr>)"

definition exclude_files :: "path list \<Rightarrow> main_window \<Rightarrow> main_window" where
  "exclude_files selected_files mw =
     mw\<lparr>excluded_paths_list := excluded_paths_list mw @ selected_files,
        files_to_exclude_model := files_to_exclude_model mw @ selected_files\<rparr>"

text \<open>A path as text, for the label.\<close>

definition path_text :: "path \<Rightarrow> string" where
  "path_text p = concat (map (\<lambda>c. ''/'' @ c) p)"

definition set_backup_directory :: "path option \<Rightarrow> main_window \<Rightarrow> main_window" where
  "set_backup_directory selected_directory mw =
     (case selected_directory of
        None \<Rightarrow> mw
      | Some d \<Rightarrow>
          mw\<lparr>root_backup_dir := Some d,
             label_root_backup_dir := ''backup location: '' @ path_text d\<rparr>)"

text \<open>
  The expression both \<^verbatim>\<open>run_backup\<close> and \<^verbatim>\<open>save_settings\<close> assign to
  \<^verbatim>\<open>excluded_extensions_list\<close>: the text of the line edit, split at the commas unless
  it is empty.
\<close>

definition excluded_extensions_of :: "string \<Rightarrow> string list" where
  "excluded_extensions_of text' = (if text' \<noteq> [] then split CHR '','' text' else [])"

text \<open>
  \<^verbatim>\<open>MainWindow.save_settings\<close>, for what it does to the window; the argument tells
  whether the dialog returned a file name. Writing the file is left out.
\<close>

definition save_settings :: "bool \<Rightarrow> main_window \<Rightarrow> main_window" where
  "save_settings filename_chosen mw =
     (if filename_chosen then
        mw\<lparr>excluded_extensions_list := excluded_extensions_of (input_exclude_by mw)\<rparr>
      else mw)"

text \<open>
  \<^verbatim>\<open>BackupSettings\<close>, and \<^verbatim>\<open>MainWindow.load_settings\<close> given the settings read from
  the file (\<open>None\<close> when the dialog was closed or the file did not decode). The
  character classes \<^verbatim>\<open>str.isdigit\<close> and \<^verbatim>\<open>str.isalnum\<close> are parameters.
  \<^verbatim>\<open>','.join\<close> is \<open>join_with\<close>.
\<close>

record backup_settings =
  included_paths :: "path list"
  excluded_paths :: "path list"
  excluded_file_extensions :: "string list"
  root_backup_directory :: path

fun join_with :: "string \<Rightarrow> string list \<Rightarrow> string" where
  "join_with sep [] = []"
| "join_with sep [x] = x"
| "join_with sep (x # y # ys) = x @ sep @ join_with sep (y # ys)"

definition load_settings ::
  "(char \<Rightarrow> bool) \<Rightarrow> (char \<Rightarrow> bool) \<Rightarrow> backup_settings option
     \<Rightarrow> main_window \<Rightarrow> main_window" where
  "load_settings isdigit isalnum loaded mw =
     (case loaded of
        None \<Rightarrow> mw
      | Some loaded_backup_settings \<Rightarrow>
          (let kept = filter (\<lambda>item. item \<noteq> [] \<and>
                                \<not> (list_ex isdigit item \<or> \<not> list_ex isalnum item))
                        (excluded_file_extensions loaded_backup_settings)
           in mw\<lparr>included_paths_list := included_paths loaded_backup_settings,
                 excluded_paths_list := excluded_paths loaded_backup_settings,
                 excluded_extensions_list := kept,
                 root_backup_dir := Some (root_backup_directory loaded_backup_settings),
                 label_root_backup_dir :=
                   ''backup location: '' @
                   path_text (root_backup_directory loaded_backup_settings),
                 files_to_include_model := included_paths loaded_backup_settings,
                 files_to_exclude_model := excluded_paths loaded_backup_settings,
                 input_exclude_by := join_with '','' kept\<rparr>))"

text \<open>
  \<^verbatim>\<open>MainWindow.run_backup\<close>: one root worker is made and enqueued for every row of
  the include model.
\<close>

definition run_backup :: "'fs env \<Rightarrow> 'fs \<Rightarrow> main_window \<Rightarrow> main_window" where
  "run_backup env fs mw =
     (case root_backup_dir mw of
        None \<Rightarrow> mw\<lparr>messages := messages mw @ [''Please choose a backup location.'']\<rparr>
      | Some backup_dir \<Rightarrow>
          (let mw1 = set_gui_state False mw;
               files_to_include = files_to_include_model mw1;
               files_to_exclude = files_to_exclude_model mw1;
               mw2 = set_max_progress_value (count_total_files env fs files_to_include) mw1;
               mw3 = mw2\<lparr>excluded_extensions_list :=
                        excluded_extensions_of (input_exclude_by mw2)\<rparr>;
               mw4 = foldl (\<lambda>m item.
                        enqueue (BackupSelection item backup_dir files_to_exclude
                                   (excluded_extensions_list mw3) True) m)
                      mw3 files_to_include
           in mw4\<lparr>button_exit_clicked := button_exit_clicked mw4 @ [Cancel_backup_slot],
                  button_exit_text := ''Cancel'',
                  button_exit_enabled := True\<rparr>))"

text \<open>
  The slots that \<^verbatim>\<open>enqueue\<close> connects to the signals of a worker. Nothing is
  connected to \<^verbatim>\<open>finished\<close>.
\<close>

fun deliver :: "main_window \<Rightarrow> event \<Rightarrow> main_window" where
  "deliver mw (Error e m) = process_error (window_message_of m) mw"
| "deliver mw (Progress n) = update_progress n mw"
| "deliver mw (Memory_count n) = update_memory_count n mw"
| "deliver mw (Status s) = update_status s mw"
| "deliver mw (New_thread w) = enqueue w mw"
| "deliver mw Finished = mw"
| "deliver mw (Copy2 s d) = mw"

text \<open>
  The methods of the window other than the two slots that accumulate,
  \<^verbatim>\<open>update_progress\<close> and \<^verbatim>\<open>update_memory_count\<close>, as operations on its state.
  Left out are \<^verbatim>\<open>remove_selected\<close>, which edits the two selection lists and their
  models, \<^verbatim>\<open>show_about_window\<close>, and \<^verbatim>\<open>exit_application\<close>, which ends the process.
\<close>

datatype window_op =
    Cleanup
  | Set_gui_state bool
  | Update_status string
  | Set_max_progress_value nat
  | Save_backup_log
  | Enqueue worker
  | Kill_all
  | Cancel_backup
  | Process_error string
  | Run_backup
  | Close_event
  | Save_settings bool
  | Load_settings "char \<Rightarrow> bool" "char \<Rightarrow> bool" "backup_settings option"
  | Add_directory "path option"
  | Add_files "path list"
  | Exclude_directory "path option"
  | Exclude_files "path list"
  | Set_backup_directory "path option"

fun apply_op :: "'fs env \<Rightarrow> 'fs \<Rightarrow> main_window \<Rightarrow> window_op \<Rightarrow> main_window" where
  "apply_op env fs mw Cleanup = cleanup mw"
| "apply_op env fs mw (Set_gui_state b) = set_gui_state b mw"
| "apply_op env fs mw (Update_status s) = update_status s mw"
| "apply_op env fs mw (Set_max_progress_value n) = set_max_progress_value n mw"
| "apply_op env fs mw Save_backup_log = save_backup_log mw"
| "apply_op env fs mw (Enqueue w) = enqueue w mw"
| "apply_op env fs mw Kill_all = kill_all mw"
| "apply_op env fs mw Cancel_backup = cancel_backup mw"
| "apply_op env fs mw (Process_error m) = process_error m mw"
| "apply_op env fs mw Close_event = closeEvent mw"
| "apply_op env fs mw (Save_settings b) = save_settings b mw"
| "apply_op env fs mw (Load_settings isdigit isalnum loaded) =
     load_settings isdigit isalnum loaded mw"
| "apply_op env fs mw Run_backup = run_backup env fs mw"
| "apply_op env fs mw (Add_directory d) = add_directory d mw"
| "apply_op env fs mw (Add_files fs') = add_files fs' mw"
| "apply_op env fs mw (Exclude_directory d) = exclude_directory d mw"
| "apply_op env fs mw (Exclude_files fs') = exclude_files fs' mw"
| "apply_op env fs mw (Set_backup_directory d) = set_backup_directory d mw"

text \<open>No kill request arrives while a worker runs.\<close>

definition no_kill :: "nat \<Rightarrow> bool" where
  "no_kill i = False"

text \<open>
  The pool, one worker at a time: the first started worker runs to its end with the
  kill flag it has when it starts, then the window handles the signals it emitted.
  The function returns the window, the file system and all events once the queue is
  empty; \<open>None\<close> when \<open>n\<close> workers were not enough to empty it.
\<close>

fun run_pool ::
  "nat \<Rightarrow> 'fs env \<Rightarrow> main_window \<Rightarrow> 'fs \<Rightarrow> (main_window \<times> 'fs \<times> event list) option" where
  "run_pool n env mw fs =
     (case threadpool mw of
        [] \<Rightarrow> Some (mw, fs, [])
      | i # rest \<Rightarrow>
          (case n of
             0 \<Rightarrow> None
           | Suc n' \<Rightarrow>
               if i < length (workers mw) then
                 (case run env no_kill (workers mw ! i) fs of
                    (evs, fs', out) \<Rightarrow>
                      (case run_pool n' env (foldl deliver (mw\<lparr>threadpool := rest\<rparr>) evs) fs' of
                         None \<Rightarrow> None
                       | Some (mw', fs'', evs') \<Rightarrow> Some (mw', fs'', evs @ evs')))
               else None))"

text \<open>
  Running the same selection twice: the second run starts from the file system the
  first one left, in a window set up like the first. The result is the events of the
  first run and those of the second.
\<close>

definition backup_twice ::
  "nat \<Rightarrow> 'fs env \<Rightarrow> main_window \<Rightarrow> 'fs \<Rightarrow> (event list \<times> event list) option" where
  "backup_twice n env mw fs =
     (case run_pool n env (run_backup env fs mw) fs of
        None \<Rightarrow> None
      | Some (mw1, fs1, evs1) \<Rightarrow>
          (case run_pool n env (run_backup env fs1 mw) fs1 of
             None \<Rightarrow> None
           | Some (mw2, fs2, evs2) \<Rightarrow> Some (evs1, evs2)))"

subsection \<open>Reading a list of events\<close>

text \<open>
  The counts carried by the progress signals, the sizes carried by the byte-count
  signals, the calls of \<^verbatim>\<open>shutil.copy2\<close>, and the workers handed to the pool.
\<close>

fun progress_emissions :: "event list \<Rightarrow> nat list" where
  "progress_emissions [] = []"
| "progress_emissions (Progress n # evs) = n # progress_emissions evs"
| "progress_emissions (ev # evs) = progress_emissions evs"

fun byte_counts :: "event list \<Rightarrow> nat list" where
  "byte_counts [] = []"
| "byte_counts (Memory_count n # evs) = n # byte_counts evs"
| "byte_counts (ev # evs) = byte_counts evs"

fun copies :: "event list \<Rightarrow> (path \<times> path) list" where
  "copies [] = []"
| "copies (Copy2 s d # evs) = (s, d) # copies evs"
| "copies (ev # evs) = copies evs"

fun spawned :: "event list \<Rightarrow> worker list" where
  "spawned [] = []"
| "spawned (New_thread w # evs) = w # spawned evs"
| "spawned (ev # evs) = spawned evs"

text \<open>
  A worker whose excluded extensions contain the empty string, and a window whose
  queued workers all do.
\<close>

definition ignores_all :: "worker \<Rightarrow> bool" where
  "ignores_all w = ([] \<in> set (ignore_extensions w))"

definition pool_ignores_all :: "main_window \<Rightarrow> bool" where
  "pool_ignores_all mw =
     list_all (\<lambda>i. i < length (workers mw) \<and> ignores_all (workers mw ! i)) (threadpool mw)"

text \<open>
  The operations of an environment raise nothing outside the \<^verbatim>\<open>Exception\<close>
  hierarchy.
\<close>

definition faults_are_Exceptions :: "'fs env \<Rightarrow> bool" where
  "faults_are_Exceptions env =
     (\<forall>fs p q e.
        (listdir env fs p = Inl e \<longrightarrow> is_Exception e) \<and>
        (getsize env fs p = Inl e \<longrightarrow> is_Exception e) \<and>
        (getmtime env fs p = Inl e \<longrightarrow> is_Exception e) \<and>
        (fst (makedirs env fs p) = Some e \<longrightarrow> is_Exception e) \<and>
        (fst (copy2 env fs p q) = Some e \<longrightarrow> is_Exception e))"

subsection \<open>A file system to run the code on\<close>

text \<open>
  A tree of directories and regular files; a file has a modification time and a size.
  The operations follow the documented behaviour of the Python library:
  \<^verbatim>\<open>os.makedirs(p, exist_ok=True)\<close> creates the missing directories along \<open>p\<close> and fails
  when a file is in the way; \<^verbatim>\<open>shutil.copy2(s, d)\<close> copies into \<open>d\<close> under the name of
  \<open>s\<close> when \<open>d\<close> is a directory and to \<open>d\<close> itself otherwise, keeps the modification
  time, and fails when \<open>s\<close> is not a file, when the target is \<open>s\<close> itself or a
  directory, or when the directory that should hold the target does not exist.
  \<^verbatim>\<open>os.path.getsize\<close> and \<^verbatim>\<open>os.path.getmtime\<close> are given for files only, which is where
  the code calls them.
\<close>

datatype node = File int nat | Dir "(string \<times> node) list"

fun lookup :: "path \<Rightarrow> node \<Rightarrow> node option" where
  "lookup [] n = Some n"
| "lookup (c # p) (File m s) = None"
| "lookup (c # p) (Dir entries) =
     (case map_of entries c of None \<Rightarrow> None | Some child \<Rightarrow> lookup p child)"

definition fs_isdir :: "node \<Rightarrow> path \<Rightarrow> bool" where
  "fs_isdir fs p = (case lookup p fs of Some (Dir entries) \<Rightarrow> True | _ \<Rightarrow> False)"

definition fs_isfile :: "node \<Rightarrow> path \<Rightarrow> bool" where
  "fs_isfile fs p = (case lookup p fs of Some (File m s) \<Rightarrow> True | _ \<Rightarrow> False)"

definition fs_listdir :: "node \<Rightarrow> path \<Rightarrow> exn + string list" where
  "fs_listdir fs p =
     (case lookup p fs of Some (Dir entries) \<Rightarrow> Inr (map fst entries) | _ \<Rightarrow> Inl OSError)"

definition fs_getsize :: "node \<Rightarrow> path \<Rightarrow> exn + nat" where
  "fs_getsize fs p = (case lookup p fs of Some (File m s) \<Rightarrow> Inr s | _ \<Rightarrow> Inl OSError)"

definition fs_getmtime :: "node \<Rightarrow> path \<Rightarrow> exn + int" where
  "fs_getmtime fs p = (case lookup p fs of Some (File m s) \<Rightarrow> Inr m | _ \<Rightarrow> Inl OSError)"

fun mkdirs :: "path \<Rightarrow> node \<Rightarrow> node option" where
  "mkdirs p (File m s) = None"
| "mkdirs [] (Dir entries) = Some (Dir entries)"
| "mkdirs (c # p) (Dir entries) =
     (case mkdirs p (case map_of entries c of Some child \<Rightarrow> child | None \<Rightarrow> Dir []) of
        None \<Rightarrow> None
      | Some child' \<Rightarrow> Some (Dir (AList.update c child' entries)))"

definition fs_makedirs :: "node \<Rightarrow> path \<Rightarrow> exn option \<times> node" where
  "fs_makedirs fs p = (case mkdirs p fs of None \<Rightarrow> (Some OSError, fs) | Some fs' \<Rightarrow> (None, fs'))"

fun put :: "path \<Rightarrow> node \<Rightarrow> node \<Rightarrow> node option" where
  "put [] new (File m s) = Some new"
| "put [] new (Dir entries) = None"
| "put (c # p) new (File m s) = None"
| "put (c # p) new (Dir entries) =
     (case map_of entries c of
        Some child \<Rightarrow>
          (case put p new child of
             None \<Rightarrow> None
           | Some child' \<Rightarrow> Some (Dir (AList.update c child' entries)))
      | None \<Rightarrow> if p = [] then Some (Dir (AList.update c new entries)) else None)"

definition fs_copy2 :: "node \<Rightarrow> path \<Rightarrow> path \<Rightarrow> exn option \<times> node" where
  "fs_copy2 fs s d =
     (case lookup s fs of
        Some (File m size') \<Rightarrow>
          (let target = (if fs_isdir fs d then join d (name_of s) else d) in
           if target = s then (Some OSError, fs)
           else
             (case put target (File m size') fs of
                None \<Rightarrow> (Some OSError, fs)
              | Some fs' \<Rightarrow> (None, fs')))
      | _ \<Rightarrow> (Some OSError, fs))"

text \<open>\<^verbatim>\<open>os.walk\<close>, top down: the directory itself, then each of its subdirectories.\<close>

fun walk_node :: "path \<Rightarrow> node \<Rightarrow> (path \<times> string list \<times> string list) list" where
  "walk_node top_dir (File m s) = []"
| "walk_node top_dir (Dir entries) =
     (top_dir,
      map fst (filter (\<lambda>e. case snd e of Dir es \<Rightarrow> True | File m s \<Rightarrow> False) entries),
      map fst (filter (\<lambda>e. case snd e of Dir es \<Rightarrow> False | File m s \<Rightarrow> True) entries))
     # concat (map (\<lambda>e. walk_node (top_dir @ [fst e]) (snd e)) entries)"

definition fs_walk :: "node \<Rightarrow> path \<Rightarrow> (path \<times> string list \<times> string list) list" where
  "fs_walk fs top_dir =
     (case lookup top_dir fs of None \<Rightarrow> [] | Some n \<Rightarrow> walk_node top_dir n)"

definition fs_env :: "node env" where
  "fs_env =
     \<lparr>isdir = fs_isdir, isfile = fs_isfile, listdir = fs_listdir, getsize = fs_getsize,
      getmtime = fs_getmtime, makedirs = fs_makedirs, copy2 = fs_copy2, walk = fs_walk\<rparr>"

text \<open>The same file system when every copy is refused (a destination without write access).\<close>

definition denied_env :: "node env" where
  "denied_env = fs_env\<lparr>copy2 := \<lambda>fs s d. (Some OSError, fs)\<rparr>"

text \<open>
  The same file system when no size can be read, when no directory can be listed, and
  when the modification time of the paths in \<open>bad\<close> cannot be read.
\<close>

definition unreadable_env :: "node env" where
  "unreadable_env = fs_env\<lparr>getsize := \<lambda>fs p. Inl OSError\<rparr>"

definition unlistable_env :: "node env" where
  "unlistable_env = fs_env\<lparr>listdir := \<lambda>fs p. Inl OSError\<rparr>"

definition no_mtime_env :: "path list \<Rightarrow> node env" where
  "no_mtime_env bad =
     fs_env\<lparr>getmtime := \<lambda>fs p. if p \<in> set bad then Inl OSError else fs_getmtime fs p\<rparr>"

subsection \<open>Scenarios\<close>

text \<open>
  A home directory with documents, among them a subdirectory with two files, and an
  empty backup directory.
\<close>

definition docs_fs :: node where
  "docs_fs =
     Dir [(''home'',
           Dir [(''docs'',
                 Dir [(''a.txt'', File 10 3),
                      (''pic.jpg'', File 5 7),
                      (''old'', Dir [(''b.txt'', File 20 4), (''c.txt'', File 21 5)])])]),
          (''backup'', Dir [])]"

text \<open>The same documents with an earlier backup: \<open>a.txt\<close> has changed since.\<close>

definition docs_again_fs :: node where
  "docs_again_fs =
     Dir [(''home'',
           Dir [(''docs'',
                 Dir [(''a.txt'', File 10 3),
                      (''pic.jpg'', File 5 7),
                      (''old'', Dir [(''b.txt'', File 20 4), (''c.txt'', File 21 5)])])]),
          (''backup'',
           Dir [(''docs'', Dir [(''a.txt'', File 8 2), (''pic.jpg'', File 5 7)])])]"

definition docs_worker :: worker where
  "docs_worker = BackupSelection [''home'', ''docs''] [''backup''] [] [] True"

definition a_worker :: worker where
  "a_worker = BackupSelection [''home'', ''docs'', ''a.txt''] [''backup'', ''docs''] [] [] True"

definition docs_worker_no_jpg :: worker where
  "docs_worker_no_jpg = BackupSelection [''home'', ''docs''] [''backup''] [] [''jpg''] True"

definition pic_worker_no_jpg :: worker where
  "pic_worker_no_jpg =
     BackupSelection [''home'', ''docs'', ''pic.jpg''] [''backup''] [] [''jpg''] True"

definition docs_worker_trailing_comma :: worker where
  "docs_worker_trailing_comma =
     BackupSelection [''home'', ''docs''] [''backup''] []
       (excluded_extensions_of ''jpg,png,'') True"

definition a_worker_trailing_comma :: worker where
  "a_worker_trailing_comma =
     BackupSelection [''home'', ''docs'', ''a.txt''] [''backup''] []
       (excluded_extensions_of ''jpg,png,'') True"

text \<open>A worker whose destination is a file of the source.\<close>

definition blocked_worker :: worker where
  "blocked_worker =
     BackupSelection [''home'', ''docs''] [''home'', ''docs'', ''a.txt''] [] [] False"

text \<open>
  A backup directory in which the name \<open>docs\<close> is taken by a file, so that the
  directory of a root worker for the documents cannot be created.
\<close>

definition occupied_fs :: node where
  "occupied_fs =
     Dir [(''home'', Dir [(''docs'', Dir [(''a.txt'', File 10 3)])]),
          (''backup'', Dir [(''docs'', File 1 1)])]"

text \<open>
  The documents once the root worker has created its directory in the backup, and once
  it has copied \<open>a.txt\<close>.
\<close>

definition docs_started_fs :: node where
  "docs_started_fs =
     Dir [(''home'',
           Dir [(''docs'',
                 Dir [(''a.txt'', File 10 3),
                      (''pic.jpg'', File 5 7),
                      (''old'', Dir [(''b.txt'', File 20 4), (''c.txt'', File 21 5)])])]),
          (''backup'', Dir [(''docs'', Dir [])])]"

definition docs_a_copied_fs :: node where
  "docs_a_copied_fs =
     Dir [(''home'',
           Dir [(''docs'',
                 Dir [(''a.txt'', File 10 3),
                      (''pic.jpg'', File 5 7),
                      (''old'', Dir [(''b.txt'', File 20 4), (''c.txt'', File 21 5)])])]),
          (''backup'', Dir [(''docs'', Dir [(''a.txt'', File 10 3)])])]"

text \<open>The window with the documents selected, and with \<open>old\<close> excluded as well.\<close>

definition docs_window :: main_window where
  "docs_window =
     init_window\<lparr>root_backup_dir := Some [''backup''],
                 files_to_include_model := [[''home'', ''docs'']]\<rparr>"

definition docs_window_without_old :: main_window where
  "docs_window_without_old =
     docs_window\<lparr>files_to_exclude_model := [[''home'', ''docs'', ''old'']]\<rparr>"

text \<open>The same window with \<^verbatim>\<open>jpg,png,\<close> typed as the excluded extensions.\<close>

definition docs_window_trailing_comma :: main_window where
  "docs_window_trailing_comma = docs_window\<lparr>input_exclude_by := ''jpg,png,''\<rparr>"

text \<open>
  A file \<open>notes\<close> in the source where the backup holds a directory \<open>notes\<close>
  (the source had a directory of that name when it was last backed up).
\<close>

definition notes_fs :: node where
  "notes_fs =
     Dir [(''home'', Dir [(''docs'', Dir [(''notes'', File 12 2)])]),
          (''backup'', Dir [(''docs'', Dir [(''notes'', Dir [])])])]"

text \<open>A single file selected, and a backup directory that does not exist.\<close>

definition letter_fs :: node where
  "letter_fs = Dir [(''home'', Dir [(''letter.txt'', File 10 3)])]"

definition letter_window :: main_window where
  "letter_window =
     init_window\<lparr>root_backup_dir := Some [''backup''],
                 files_to_include_model := [[''home'', ''letter.txt'']]\<rparr>"

text \<open>
  Documents three levels deep, and the course of a cancellation that reaches the
  window while the root worker is in its loop: the worker has handed its first child to
  the pool and sees the flag at its second pass; the window handles the cancellation
  first and the signals of the worker after it; then the pool goes on.
\<close>

definition deep_fs :: node where
  "deep_fs =
     Dir [(''home'',
           Dir [(''docs'',
                 Dir [(''old'', Dir [(''older'', Dir [(''d.txt'', File 30 6)])]),
                      (''z.txt'', File 31 1)])]),
          (''backup'', Dir [])]"

definition kill_after_first :: "nat \<Rightarrow> bool" where
  "kill_after_first i = (0 < i)"

definition cancel_race :: "(main_window \<times> node \<times> event list) option" where
  "cancel_race =
     (let started = run_backup fs_env deep_fs docs_window in
      case run fs_env kill_after_first (workers started ! 0) deep_fs of
        (evs, fs', out) \<Rightarrow>
          run_pool 2 fs_env
            (foldl deliver (cancel_backup (started\<lparr>threadpool := []\<rparr>)) evs) fs')"

section \<open>Properties\<close>

subsection \<open>Auxiliary facts\<close>

lemmas fs_ops =
  fs_env_def denied_env_def fs_isdir_def fs_isfile_def fs_listdir_def fs_getsize_def
  fs_getmtime_def fs_makedirs_def fs_copy2_def fs_walk_def

lemmas run_parts =
  run_def run_try_def run_dir_def run_file_def run_listing_def run_child_def
  copy_decision_def check_existing_file_def BackupSelection_def join_def name_of_def
  endswith_def no_kill_def

lemma copies_append [simp]: "copies (xs @ ys) = copies xs @ copies ys"
  by (induction xs rule: copies.induct) auto

lemma progress_emissions_append [simp]:
  "progress_emissions (xs @ ys) = progress_emissions xs @ progress_emissions ys"
  by (induction xs rule: progress_emissions.induct) auto

lemma byte_counts_append [simp]: "byte_counts (xs @ ys) = byte_counts xs @ byte_counts ys"
  by (induction xs rule: byte_counts.induct) auto

lemma spawned_append [simp]: "spawned (xs @ ys) = spawned xs @ spawned ys"
  by (induction xs rule: spawned.induct) auto

text \<open>Nothing inside the \<^verbatim>\<open>try\<close> block emits \<^verbatim>\<open>finished\<close>.\<close>

lemma copy_decision_no_Finished:
  "Finished \<notin> set (fst (copy_decision env fs s t d))"
  by (auto simp: copy_decision_def split: sum.splits prod.splits option.splits if_splits)

lemma run_child_no_Finished:
  "Finished \<notin> set (fst (run_child env w dst' fs name))"
  using copy_decision_no_Finished [of env fs "join (src w) name" "join dst' name" "join dst' name"]
  by (simp add: run_child_def Let_def)

lemma run_names_no_Finished:
  "Finished \<notin> set (fst (run_names env kills w dst' i fs names))"
proof (induction names arbitrary: i fs)
  case Nil
  show ?case by simp
next
  case (Cons name names)
  show ?case
  proof (cases "is_killed w \<or> kills i")
    case True
    then show ?thesis by simp
  next
    case False
    obtain evs fs' out where c: "run_child env w dst' fs name = (evs, fs', out)"
      by (cases "run_child env w dst' fs name") auto
    have e: "Finished \<notin> set evs"
      using run_child_no_Finished [of env w dst' fs name] c by simp
    show ?thesis
    proof (cases out)
      case Returned
      obtain evs2 fs2 out2
        where r: "run_names env kills w dst' (Suc i) fs' names = (evs2, fs2, out2)"
        by (cases "run_names env kills w dst' (Suc i) fs' names") auto
      have "Finished \<notin> set evs2"
        using Cons.IH [of "Suc i" fs'] r by simp
      with False c e Returned r show ?thesis by simp
    next
      case (Raised x)
      with False c e show ?thesis by simp
    qed
  qed
qed

lemma run_try_no_Finished:
  "Finished \<notin> set (fst (run_try env kills w fs))"
  using run_names_no_Finished [of env kills w]
  by (auto simp: run_try_def run_dir_def run_file_def run_listing_def Let_def
        copy_decision_no_Finished
      split: sum.splits prod.splits option.splits if_splits)

text \<open>What leaves the \<^verbatim>\<open>try\<close> block was raised by an operation, or is the kill.\<close>

lemma copy_decision_raises:
  "faults_are_Exceptions env \<Longrightarrow>
   snd (snd (copy_decision env fs s t d)) = Raised e \<Longrightarrow> is_Exception e"
  unfolding faults_are_Exceptions_def copy_decision_def check_existing_file_def
  by (auto split: sum.splits prod.splits option.splits if_splits) (metis fst_conv)+

lemma run_child_raises:
  "faults_are_Exceptions env \<Longrightarrow>
   snd (snd (run_child env w dst' fs name)) = Raised e \<Longrightarrow> is_Exception e"
  using copy_decision_raises [of env fs "join (src w) name" "join dst' name" "join dst' name" e]
  by (simp add: run_child_def Let_def split: if_splits)

lemma run_names_raises:
  "faults_are_Exceptions env \<Longrightarrow>
   snd (snd (run_names env kills w dst' i fs names)) = Raised e \<Longrightarrow> is_Exception e"
proof (induction names arbitrary: i fs)
  case Nil
  then show ?case by simp
next
  case (Cons name names)
  show ?case
  proof (cases "is_killed w \<or> kills i")
    case True
    with Cons.prems show ?thesis by auto
  next
    case False
    obtain evs fs' out where c: "run_child env w dst' fs name = (evs, fs', out)"
      by (cases "run_child env w dst' fs name") auto
    show ?thesis
    proof (cases out)
      case Returned
      obtain evs2 fs2 out2
        where r: "run_names env kills w dst' (Suc i) fs' names = (evs2, fs2, out2)"
        by (cases "run_names env kills w dst' (Suc i) fs' names") auto
      with False c Returned Cons.prems have "out2 = Raised e" by simp
      with Cons.IH [of "Suc i" fs'] Cons.prems(1) r show ?thesis by simp
    next
      case (Raised x)
      with False c Cons.prems have "x = e" by simp
      with run_child_raises [of env w dst' fs name e] Cons.prems(1) c Raised
      show ?thesis by simp
    qed
  qed
qed

lemma run_try_raises:
  assumes "faults_are_Exceptions env" and "snd (snd (run_try env kills w fs)) = Raised e"
  shows "is_Exception e"
proof -
  have mk: "\<And>fs p x. fst (makedirs env fs p) = Some x \<Longrightarrow> is_Exception x"
    using assms(1) unfolding faults_are_Exceptions_def by blast
  have ls: "\<And>fs p x. listdir env fs p = Inl x \<Longrightarrow> is_Exception x"
    using assms(1) unfolding faults_are_Exceptions_def by blast
  have nm: "\<And>d i fs. snd (snd (run_names env kills w d i fs names)) = Raised e
              \<Longrightarrow> is_Exception e" for names
    using run_names_raises [OF assms(1)] by blast
  have li: "\<And>d fs. snd (snd (run_listing env kills w d fs)) = Raised e \<Longrightarrow> is_Exception e"
    using ls nm by (auto simp: run_listing_def split: sum.splits)
  have fi: "snd (snd (run_file env w fs)) = Raised e \<Longrightarrow> is_Exception e"
    using copy_decision_raises [OF assms(1)] by (auto simp: run_file_def split: if_splits)
  have di: "snd (snd (run_dir env kills w fs)) = Raised e \<Longrightarrow> is_Exception e"
    using li mk
    by (auto simp: run_dir_def Let_def split: prod.splits option.splits if_splits)
       (metis fst_conv)+
  show ?thesis
    using assms(2) fi di by (auto simp: run_try_def split: if_splits)
qed

lemma fs_env_faults: "faults_are_Exceptions fs_env"
  unfolding faults_are_Exceptions_def
  by (auto simp: fs_ops Let_def split: option.splits node.splits if_splits)

subsection \<open>The terminal event\<close>

text \<open>
  Claim C3. Every run of a worker, whatever the file system answers and whenever a
  kill arrives, emits \<^verbatim>\<open>finished\<close> exactly once, and as its last event: the
  events are some list without \<^verbatim>\<open>finished\<close> followed by \<^verbatim>\<open>finished\<close>.
\<close>

theorem finished_exactly_once_and_last:
  "\<exists>evs. fst (run env kills w fs) = evs @ [Finished] \<and> Finished \<notin> set evs"
proof -
  obtain evs fs' out where t: "run_try env kills w fs = (evs, fs', out)"
    by (cases "run_try env kills w fs") auto
  have e: "Finished \<notin> set evs"
    using run_try_no_Finished [of env kills w fs] t by simp
  show ?thesis
  proof (cases out)
    case Returned
    with t e show ?thesis by (simp add: run_def)
  next
    case (Raised x)
    with t e show ?thesis by (simp add: run_def)
  qed
qed

subsection \<open>No exception leaves \<^verbatim>\<open>run\<close>\<close>

text \<open>
  The loop over a list of names is the loop over its first names followed by the loop
  over the others, and the body of the \<^verbatim>\<open>try\<close> block followed by the handlers is the
  run.
\<close>

lemma run_names_append:
  "run_names env kills w d i fs (pre @ rest) =
     (case run_names env kills w d i fs pre of
        (evs, fs', Raised e) \<Rightarrow> (evs, fs', Raised e)
      | (evs, fs', Returned) \<Rightarrow>
          (case run_names env kills w d (i + length pre) fs' rest of
             (evs', fs'', out) \<Rightarrow> (evs @ evs', fs'', out)))"
proof (induction pre arbitrary: i fs)
  case Nil
  show ?case by (simp split: prod.splits)
next
  case (Cons name pre)
  show ?case
  proof (cases "is_killed w \<or> kills i")
    case True
    then show ?thesis by simp
  next
    case False
    obtain evs fs' out where c: "run_child env w d fs name = (evs, fs', out)"
      by (cases "run_child env w d fs name") auto
    show ?thesis
    proof (cases out)
      case Returned
      with False c Cons.IH [of "Suc i" fs'] show ?thesis
        by (simp split: prod.splits outcome.splits)
    next
      case (Raised x)
      with False c show ?thesis by simp
    qed
  qed
qed

lemma run_names_pass:
  assumes "run_names env kills w d 0 fs2 pre = (evs1, fs3, Returned)"
  shows "run_names env kills w d 0 fs2 (pre @ name # post) =
     (if is_killed w \<or> kills (length pre) then (evs1, fs3, Raised WorkerKilledException)
      else
        (case run_child env w d fs3 name of
           (evs2, fs4, Raised e) \<Rightarrow> (evs1 @ evs2, fs4, Raised e)
         | (evs2, fs4, Returned) \<Rightarrow>
             (case run_names env kills w d (Suc (length pre)) fs4 post of
                (evs', fs'', out) \<Rightarrow> (evs1 @ evs2 @ evs', fs'', out))))"
  using assms run_names_append [of env kills w d 0 fs2 pre "name # post"]
  by (simp split: prod.splits outcome.splits)

lemma run_of_try:
  assumes "faults_are_Exceptions env" and "run_try env kills w fs = (evs, fs', out)"
  shows "(out = Returned \<longrightarrow> run env kills w fs = (evs @ [Finished], fs', Returned)) \<and>
         (out = Raised e \<longrightarrow>
            run env kills w fs =
              (evs @ [if e = WorkerKilledException then Status ''worker killed''
                      else Error e (Running_backup (src w)), Finished], fs', Returned))"
proof -
  have "out = Raised e \<Longrightarrow> is_Exception e"
    using run_try_raises [OF assms(1), of kills w fs e] assms(2) by simp
  with assms(2) show ?thesis by (auto simp: run_def)
qed

lemma run_try_first_makedirs:
  assumes "isdir env fs (src w)" and "\<not> isdir env fs (dst w)"
      and "makedirs env fs (dst w) = (Some e, fs1)"
  shows "run_try env kills w fs = ([], fs1, Raised e)"
  using assms by (simp add: run_try_def run_dir_def)

lemma run_try_root_makedirs:
  assumes "isdir env fs (src w)"
      and "if isdir env fs (dst w) then fs1 = fs else makedirs env fs (dst w) = (None, fs1)"
      and "root w"
      and "makedirs env fs1 (join (dst w) (name_of (src w))) = (Some e, fs2)"
  shows "run_try env kills w fs =
           (if e = OSError
            then ([Error OSError (Creating_directory (join (dst w) (name_of (src w))))],
                  fs2, Returned)
            else ([], fs2, Raised e))"
  using assms by (simp add: run_try_def run_dir_def Let_def split: if_splits)

lemma run_try_listing:
  assumes "isdir env fs (src w)"
      and "if isdir env fs (dst w) then fs1 = fs else makedirs env fs (dst w) = (None, fs1)"
      and "if root w
           then makedirs env fs1 (join (dst w) (name_of (src w))) = (None, fs2) \<and>
                d = join (dst w) (name_of (src w))
           else fs2 = fs1 \<and> d = dst w"
  shows "run_try env kills w fs = run_listing env kills w d fs2"
  using assms by (simp add: run_try_def run_dir_def Let_def split: if_splits)

lemma run_try_file:
  assumes "\<not> isdir env fs (src w)" and "isfile env fs (src w)"
      and "\<not> ignore_this (ignore_extensions w) (name_of (src w))"
  shows "run_try env kills w fs =
           copy_decision env fs (src w) (join (dst w) (name_of (src w))) (dst w)"
  using assms by (simp add: run_try_def run_file_def)

lemma run_child_met_file:
  assumes "join (src w) name \<notin> set (ignore_files w)"
      and "\<not> isdir env fs3 (join (src w) name)" and "isfile env fs3 (join (src w) name)"
      and "\<not> ignore_this (ignore_extensions w) name"
  shows "run_child env w d fs3 name =
           copy_decision env fs3 (join (src w) name) (join d name) (join d name)"
  using assms by (simp add: run_child_def Let_def)

lemma copy_decision_faults:
  "(getsize env fsc source = Inl e \<longrightarrow>
      copy_decision env fsc source tested target = ([], fsc, Raised e)) \<and>
   (getsize env fsc source = Inr file_size \<and> isfile env fsc tested \<and>
    getmtime env fsc source = Inl e \<longrightarrow>
      copy_decision env fsc source tested target = ([], fsc, Raised e)) \<and>
   (getsize env fsc source = Inr file_size \<and> isfile env fsc tested \<and>
    getmtime env fsc source = Inr src_time \<and> getmtime env fsc tested = Inl e \<longrightarrow>
      copy_decision env fsc source tested target = ([], fsc, Raised e)) \<and>
   (getsize env fsc source = Inr file_size \<and> isfile env fsc tested \<and>
    getmtime env fsc source = Inr src_time \<and> getmtime env fsc tested = Inr dest_time \<and>
    dest_time < src_time \<and> copy2 env fsc source target = (Some e, fsc') \<longrightarrow>
      copy_decision env fsc source tested target =
        (if e = OSError
         then ([Status (name_of source @ ''...''), Copy2 source target,
                Error OSError (Overwriting_file source), Progress 1], fsc', Returned)
         else ([Status (name_of source @ ''...''), Copy2 source target], fsc', Raised e))) \<and>
   (getsize env fsc source = Inr file_size \<and> \<not> isfile env fsc tested \<and>
    copy2 env fsc source target = (Some e, fsc') \<longrightarrow>
      copy_decision env fsc source tested target =
        (if e = OSError
         then ([Status (name_of source @ ''...''), Copy2 source target,
                Error OSError (Copying_new_file source)], fsc', Returned)
         else ([Status (name_of source @ ''...''), Copy2 source target], fsc', Raised e)))"
  by (simp add: copy_decision_def check_existing_file_def)

text \<open>What the run makes of a fault, place by place.\<close>

lemma denied_env_faults: "faults_are_Exceptions denied_env"
  unfolding faults_are_Exceptions_def
  by (auto simp: fs_ops Let_def split: option.splits node.splits if_splits)

lemma unreadable_env_faults: "faults_are_Exceptions unreadable_env"
  unfolding faults_are_Exceptions_def
  by (auto simp: unreadable_env_def fs_ops Let_def split: option.splits node.splits if_splits)

lemma unlistable_env_faults: "faults_are_Exceptions unlistable_env"
  unfolding faults_are_Exceptions_def
  by (auto simp: unlistable_env_def fs_ops Let_def split: option.splits node.splits if_splits)

lemma no_mtime_env_faults: "faults_are_Exceptions (no_mtime_env bad)"
  unfolding faults_are_Exceptions_def
  by (auto simp: no_mtime_env_def fs_ops Let_def split: option.splits node.splits if_splits)

lemma run_first_makedirs_fault:
  assumes "faults_are_Exceptions env"
      and "isdir env fs (src w)" and "\<not> isdir env fs (dst w)"
      and "makedirs env fs (dst w) = (Some e, fs1)"
  shows "run env kills w fs =
           ([if e = WorkerKilledException then Status ''worker killed''
             else Error e (Running_backup (src w)), Finished], fs1, Returned)"
  using run_of_try [OF assms(1) run_try_first_makedirs [OF assms(2,3,4), where kills = kills], where e = e] by simp

lemma run_root_makedirs_fault:
  assumes "faults_are_Exceptions env"
      and "isdir env fs (src w)"
      and "if isdir env fs (dst w) then fs1 = fs else makedirs env fs (dst w) = (None, fs1)"
      and "root w"
      and "makedirs env fs1 (join (dst w) (name_of (src w))) = (Some e, fs2)"
  shows "run env kills w fs =
           ([if e = OSError
             then Error OSError (Creating_directory (join (dst w) (name_of (src w))))
             else if e = WorkerKilledException then Status ''worker killed''
             else Error e (Running_backup (src w)), Finished], fs2, Returned)"
proof (cases "e = OSError")
  case True
  have "run_try env kills w fs =
          ([Error OSError (Creating_directory (join (dst w) (name_of (src w))))], fs2, Returned)"
    using run_try_root_makedirs [OF assms(2,3,4,5), where kills = kills] True by simp
  from run_of_try [OF assms(1) this, where e = e] True show ?thesis by simp
next
  case False
  have "run_try env kills w fs = ([], fs2, Raised e)"
    using run_try_root_makedirs [OF assms(2,3,4,5), where kills = kills] False by simp
  from run_of_try [OF assms(1) this, where e = e] False show ?thesis by simp
qed

lemma run_listdir_fault:
  assumes "faults_are_Exceptions env"
      and "isdir env fs (src w)"
      and "if isdir env fs (dst w) then fs1 = fs else makedirs env fs (dst w) = (None, fs1)"
      and "if root w
           then makedirs env fs1 (join (dst w) (name_of (src w))) = (None, fs2) \<and>
                d = join (dst w) (name_of (src w))
           else fs2 = fs1 \<and> d = dst w"
      and "listdir env fs2 (src w) = Inl e"
  shows "run env kills w fs =
           ([if e = WorkerKilledException then Status ''worker killed''
             else Error e (Running_backup (src w)), Finished], fs2, Returned)"
proof -
  have "run_try env kills w fs = ([], fs2, Raised e)"
    using run_try_listing [OF assms(2,3,4), where kills = kills] assms(5) by (simp add: run_listing_def)
  from run_of_try [OF assms(1) this, where e = e] show ?thesis by simp
qed

lemma run_try_pass:
  assumes "isdir env fs (src w)"
      and "if isdir env fs (dst w) then fs1 = fs else makedirs env fs (dst w) = (None, fs1)"
      and "if root w
           then makedirs env fs1 (join (dst w) (name_of (src w))) = (None, fs2) \<and>
                d = join (dst w) (name_of (src w))
           else fs2 = fs1 \<and> d = dst w"
      and "listdir env fs2 (src w) = Inr (pre @ name # post)"
      and "run_names env kills w d 0 fs2 pre = (evs1, fs3, Returned)"
  shows "run_try env kills w fs =
     (if is_killed w \<or> kills (length pre) then (evs1, fs3, Raised WorkerKilledException)
      else
        (case run_child env w d fs3 name of
           (evs2, fs4, Raised e) \<Rightarrow> (evs1 @ evs2, fs4, Raised e)
         | (evs2, fs4, Returned) \<Rightarrow>
             (case run_names env kills w d (Suc (length pre)) fs4 post of
                (evs', fs'', out) \<Rightarrow> (evs1 @ evs2 @ evs', fs'', out))))"
proof -
  have "run_try env kills w fs = run_names env kills w d 0 fs2 (pre @ name # post)"
    using run_try_listing [OF assms(1,2,3), where kills = kills] assms(4) by (simp add: run_listing_def)
  then show ?thesis
    by (simp only: run_names_pass [OF assms(5)])
qed

lemma run_pass_killed:
  assumes "faults_are_Exceptions env"
      and "isdir env fs (src w)"
      and "if isdir env fs (dst w) then fs1 = fs else makedirs env fs (dst w) = (None, fs1)"
      and "if root w
           then makedirs env fs1 (join (dst w) (name_of (src w))) = (None, fs2) \<and>
                d = join (dst w) (name_of (src w))
           else fs2 = fs1 \<and> d = dst w"
      and "listdir env fs2 (src w) = Inr (pre @ name # post)"
      and "run_names env kills w d 0 fs2 pre = (evs1, fs3, Returned)"
      and "is_killed w \<or> kills (length pre)"
  shows "run env kills w fs = (evs1 @ [Status ''worker killed'', Finished], fs3, Returned)"
proof -
  have "run_try env kills w fs = (evs1, fs3, Raised WorkerKilledException)"
    using run_try_pass [OF assms(2,3,4,5,6)] assms(7) by simp
  from run_of_try [OF assms(1) this, where e = WorkerKilledException] show ?thesis by simp
qed

lemma run_pass_raised:
  assumes "faults_are_Exceptions env"
      and "isdir env fs (src w)"
      and "if isdir env fs (dst w) then fs1 = fs else makedirs env fs (dst w) = (None, fs1)"
      and "if root w
           then makedirs env fs1 (join (dst w) (name_of (src w))) = (None, fs2) \<and>
                d = join (dst w) (name_of (src w))
           else fs2 = fs1 \<and> d = dst w"
      and "listdir env fs2 (src w) = Inr (pre @ name # post)"
      and "run_names env kills w d 0 fs2 pre = (evs1, fs3, Returned)"
      and "\<not> (is_killed w \<or> kills (length pre))"
      and "run_child env w d fs3 name = (evs2, fs4, Raised e)"
  shows "run env kills w fs =
           (evs1 @ evs2 @
            [if e = WorkerKilledException then Status ''worker killed''
             else Error e (Running_backup (src w)), Finished], fs4, Returned)"
proof -
  have "run_try env kills w fs = (evs1 @ evs2, fs4, Raised e)"
    using run_try_pass [OF assms(2,3,4,5,6)] assms(7,8) by simp
  from run_of_try [OF assms(1) this, where e = e] show ?thesis by simp
qed

lemma run_pass_returned:
  assumes "faults_are_Exceptions env"
      and "isdir env fs (src w)"
      and "if isdir env fs (dst w) then fs1 = fs else makedirs env fs (dst w) = (None, fs1)"
      and "if root w
           then makedirs env fs1 (join (dst w) (name_of (src w))) = (None, fs2) \<and>
                d = join (dst w) (name_of (src w))
           else fs2 = fs1 \<and> d = dst w"
      and "listdir env fs2 (src w) = Inr (pre @ name # post)"
      and "run_names env kills w d 0 fs2 pre = (evs1, fs3, Returned)"
      and "\<not> (is_killed w \<or> kills (length pre))"
      and "run_child env w d fs3 name = (evs2, fs4, Returned)"
  shows "\<exists>rest fs'. run env kills w fs = (evs1 @ evs2 @ rest @ [Finished], fs', Returned)"
proof -
  obtain evs' fs'' out
    where r: "run_names env kills w d (Suc (length pre)) fs4 post = (evs', fs'', out)"
    by (cases "run_names env kills w d (Suc (length pre)) fs4 post") auto
  have t: "run_try env kills w fs = (evs1 @ evs2 @ evs', fs'', out)"
    using run_try_pass [OF assms(2,3,4,5,6)] assms(7,8) r by simp
  show ?thesis
  proof (cases out)
    case Returned
    with run_of_try [OF assms(1) t] show ?thesis by auto
  next
    case (Raised x)
    with run_of_try [OF assms(1) t, where e = x]
    have "run env kills w fs =
            (evs1 @ evs2 @
             (evs' @ [if x = WorkerKilledException then Status ''worker killed''
                      else Error x (Running_backup (src w))]) @ [Finished], fs'', Returned)"
      by simp
    then show ?thesis by blast
  qed
qed

lemma run_file_decision:
  assumes "faults_are_Exceptions env"
      and "\<not> isdir env fs (src w)" and "isfile env fs (src w)"
      and "\<not> ignore_this (ignore_extensions w) (name_of (src w))"
      and "copy_decision env fs (src w) (join (dst w) (name_of (src w))) (dst w) =
             (evs2, fs4, out)"
  shows "(out = Returned \<longrightarrow> run env kills w fs = (evs2 @ [Finished], fs4, Returned)) \<and>
         (out = Raised e \<longrightarrow>
            run env kills w fs =
              (evs2 @ [if e = WorkerKilledException then Status ''worker killed''
                       else Error e (Running_backup (src w)), Finished], fs4, Returned))"
proof -
  have "run_try env kills w fs = (evs2, fs4, out)"
    using run_try_file [OF assms(2,3,4), where kills = kills] assms(5) by simp
  from run_of_try [OF assms(1) this, where e = e] show ?thesis .
qed

text \<open>
  Claim C7. When the operations of the environment raise only exceptions of the
  \<^verbatim>\<open>Exception\<close> hierarchy, as file-system operations do, \<^verbatim>\<open>run\<close> returns normally
  for every worker, every file system and every arrival of a kill: its events end with
  \<^verbatim>\<open>finished\<close>, and whatever left the \<^verbatim>\<open>try\<close> block was turned into the status
  \<^verbatim>\<open>worker killed\<close> (for the kill) or into an error event carrying the exception.
  Every fault is converted where it occurs:

  \<^item> \<^verbatim>\<open>os.makedirs(self.dst)\<close> raises: the run is the error event of the handler
    (\<^verbatim>\<open>error running backup for\<close> the source) and \<^verbatim>\<open>finished\<close>;
  \<^item> the \<^verbatim>\<open>os.makedirs\<close> of a root worker raises: for an \<^verbatim>\<open>OSError\<close> the run is the
    error event \<^verbatim>\<open>error creating directory\<close> with the path that was to be created
    and \<^verbatim>\<open>finished\<close>, for another exception the event of the handler and
    \<^verbatim>\<open>finished\<close>;
  \<^item> \<^verbatim>\<open>os.listdir\<close> raises: the event of the handler and \<^verbatim>\<open>finished\<close>;
  \<^item> in the pass of the loop for a name, reached after the names before it with the
    events \<open>evs1\<close>: a kill flag read there gives \<open>evs1\<close>, the status
    \<^verbatim>\<open>worker killed\<close> and \<^verbatim>\<open>finished\<close>; an exception that leaves the pass gives
    \<open>evs1\<close>, the events of the pass, the event of the handler and \<^verbatim>\<open>finished\<close>; a
    pass that returns has its events, the error event of a refused copy among them,
    in the events of the run; and the pass for a file that is not excluded is the copy
    decision;
  \<^item> for a selected file that is not excluded the run is the events of the copy
    decision, then the event of the handler if the decision raised, then
    \<^verbatim>\<open>finished\<close>;
  \<^item> in the copy decision, \<^verbatim>\<open>os.path.getsize\<close> or \<^verbatim>\<open>os.path.getmtime\<close> raising leaves
    the decision with that exception and no event; \<^verbatim>\<open>shutil.copy2\<close> raising
    \<^verbatim>\<open>OSError\<close> gives the error event \<^verbatim>\<open>error overwriting file\<close> followed by the
    progress unit, or the error event \<^verbatim>\<open>error copying new file\<close>, and the decision
    returns; any other exception of \<^verbatim>\<open>shutil.copy2\<close> leaves the decision.
\<close>

theorem run_never_raises:
  assumes "faults_are_Exceptions env"
  shows
   "(\<exists>evs fs'. run env kills w fs = (evs @ [Finished], fs', Returned) \<and>
       (\<forall>e. snd (snd (run_try env kills w fs)) = Raised e \<longrightarrow>
             (if e = WorkerKilledException then Status ''worker killed''
              else Error e (Running_backup (src w))) \<in> set evs)) \<and>
    (isdir env fs (src w) \<and> \<not> isdir env fs (dst w) \<and>
     makedirs env fs (dst w) = (Some e, fs1) \<longrightarrow>
       run env kills w fs =
         ([if e = WorkerKilledException then Status ''worker killed''
           else Error e (Running_backup (src w)), Finished], fs1, Returned)) \<and>
    (isdir env fs (src w) \<and>
     (if isdir env fs (dst w) then fs1 = fs else makedirs env fs (dst w) = (None, fs1)) \<longrightarrow>
       (root w \<and> makedirs env fs1 (join (dst w) (name_of (src w))) = (Some e, fs2) \<longrightarrow>
          run env kills w fs =
            ([if e = OSError
              then Error OSError (Creating_directory (join (dst w) (name_of (src w))))
              else if e = WorkerKilledException then Status ''worker killed''
              else Error e (Running_backup (src w)), Finished], fs2, Returned)) \<and>
       ((if root w
         then makedirs env fs1 (join (dst w) (name_of (src w))) = (None, fs2) \<and>
              d = join (dst w) (name_of (src w))
         else fs2 = fs1 \<and> d = dst w) \<longrightarrow>
          (listdir env fs2 (src w) = Inl e \<longrightarrow>
             run env kills w fs =
               ([if e = WorkerKilledException then Status ''worker killed''
                 else Error e (Running_backup (src w)), Finished], fs2, Returned)) \<and>
          (listdir env fs2 (src w) = Inr (pre @ name # post) \<and>
           run_names env kills w d 0 fs2 pre = (evs1, fs3, Returned) \<longrightarrow>
             ((is_killed w \<or> kills (length pre)) \<longrightarrow>
                run env kills w fs =
                  (evs1 @ [Status ''worker killed'', Finished], fs3, Returned)) \<and>
             (\<not> (is_killed w \<or> kills (length pre)) \<longrightarrow>
                (run_child env w d fs3 name = (evs2, fs4, Raised e) \<longrightarrow>
                   run env kills w fs =
                     (evs1 @ evs2 @
                      [if e = WorkerKilledException then Status ''worker killed''
                       else Error e (Running_backup (src w)), Finished], fs4, Returned)) \<and>
                (run_child env w d fs3 name = (evs2, fs4, Returned) \<longrightarrow>
                   (\<exists>rest fs'. run env kills w fs =
                                  (evs1 @ evs2 @ rest @ [Finished], fs', Returned))) \<and>
                (join (src w) name \<notin> set (ignore_files w) \<and>
                 \<not> isdir env fs3 (join (src w) name) \<and> isfile env fs3 (join (src w) name) \<and>
                 \<not> ignore_this (ignore_extensions w) name \<longrightarrow>
                   run_child env w d fs3 name =
                     copy_decision env fs3 (join (src w) name) (join d name)
                       (join d name)))))) \<and>
    (\<not> isdir env fs (src w) \<and> isfile env fs (src w) \<and>
     \<not> ignore_this (ignore_extensions w) (name_of (src w)) \<longrightarrow>
       (copy_decision env fs (src w) (join (dst w) (name_of (src w))) (dst w) =
          (evs2, fs4, Raised e) \<longrightarrow>
        run env kills w fs =
          (evs2 @ [if e = WorkerKilledException then Status ''worker killed''
                   else Error e (Running_backup (src w)), Finished], fs4, Returned)) \<and>
       (copy_decision env fs (src w) (join (dst w) (name_of (src w))) (dst w) =
          (evs2, fs4, Returned) \<longrightarrow>
        run env kills w fs = (evs2 @ [Finished], fs4, Returned))) \<and>
    (getsize env fsc source = Inl e \<longrightarrow>
       copy_decision env fsc source tested target = ([], fsc, Raised e)) \<and>
    (getsize env fsc source = Inr file_size \<and> isfile env fsc tested \<and>
     getmtime env fsc source = Inl e \<longrightarrow>
       copy_decision env fsc source tested target = ([], fsc, Raised e)) \<and>
    (getsize env fsc source = Inr file_size \<and> isfile env fsc tested \<and>
     getmtime env fsc source = Inr src_time \<and> getmtime env fsc tested = Inl e \<longrightarrow>
       copy_decision env fsc source tested target = ([], fsc, Raised e)) \<and>
    (getsize env fsc source = Inr file_size \<and> isfile env fsc tested \<and>
     getmtime env fsc source = Inr src_time \<and> getmtime env fsc tested = Inr dest_time \<and>
     dest_time < src_time \<and> copy2 env fsc source target = (Some e, fsc') \<longrightarrow>
       copy_decision env fsc source tested target =
         (if e = OSError
          then ([Status (name_of source @ ''...''), Copy2 source target,
                 Error OSError (Overwriting_file source), Progress 1], fsc', Returned)
          else ([Status (name_of source @ ''...''), Copy2 source target], fsc', Raised e))) \<and>
    (getsize env fsc source = Inr file_size \<and> \<not> isfile env fsc tested \<and>
     copy2 env fsc source target = (Some e, fsc') \<longrightarrow>
       copy_decision env fsc source tested target =
         (if e = OSError
          then ([Status (name_of source @ ''...''), Copy2 source target,
                 Error OSError (Copying_new_file source)], fsc', Returned)
          else ([Status (name_of source @ ''...''), Copy2 source target], fsc', Raised e)))"
proof -
  have total: "\<exists>evs fs'. run env kills w fs = (evs @ [Finished], fs', Returned) \<and>
       (\<forall>e. snd (snd (run_try env kills w fs)) = Raised e \<longrightarrow>
             (if e = WorkerKilledException then Status ''worker killed''
              else Error e (Running_backup (src w))) \<in> set evs)"
  proof -
    obtain evs fs' out where t: "run_try env kills w fs = (evs, fs', out)"
      by (cases "run_try env kills w fs") auto
    show ?thesis
    proof (cases out)
      case Returned
      with t show ?thesis by (simp add: run_def)
    next
      case (Raised x)
      then have "is_Exception x"
        using run_try_raises [OF assms, of kills w fs x] t by simp
      with t Raised show ?thesis by (simp add: run_def)
    qed
  qed
  note first = run_first_makedirs_fault [OF assms, where kills = kills]
  note nested = run_root_makedirs_fault [OF assms, where kills = kills]
  note listing = run_listdir_fault [OF assms, where kills = kills]
  note killed = run_pass_killed [OF assms]
  note raised = run_pass_raised [OF assms]
  note returned = run_pass_returned [OF assms]
  note met = run_child_met_file
  note selected = run_file_decision [OF assms, where kills = kills]
  note decision = copy_decision_faults
      [of env fsc source e tested target file_size src_time dest_time fsc']
  have directory:
    "isdir env fs (src w) \<and>
     (if isdir env fs (dst w) then fs1 = fs else makedirs env fs (dst w) = (None, fs1)) \<longrightarrow>
       (root w \<and> makedirs env fs1 (join (dst w) (name_of (src w))) = (Some e, fs2) \<longrightarrow>
          run env kills w fs =
            ([if e = OSError
              then Error OSError (Creating_directory (join (dst w) (name_of (src w))))
              else if e = WorkerKilledException then Status ''worker killed''
              else Error e (Running_backup (src w)), Finished], fs2, Returned)) \<and>
       ((if root w
         then makedirs env fs1 (join (dst w) (name_of (src w))) = (None, fs2) \<and>
              d = join (dst w) (name_of (src w))
         else fs2 = fs1 \<and> d = dst w) \<longrightarrow>
          (listdir env fs2 (src w) = Inl e \<longrightarrow>
             run env kills w fs =
               ([if e = WorkerKilledException then Status ''worker killed''
                 else Error e (Running_backup (src w)), Finished], fs2, Returned)) \<and>
          (listdir env fs2 (src w) = Inr (pre @ name # post) \<and>
           run_names env kills w d 0 fs2 pre = (evs1, fs3, Returned) \<longrightarrow>
             ((is_killed w \<or> kills (length pre)) \<longrightarrow>
                run env kills w fs =
                  (evs1 @ [Status ''worker killed'', Finished], fs3, Returned)) \<and>
             (\<not> (is_killed w \<or> kills (length pre)) \<longrightarrow>
                (run_child env w d fs3 name = (evs2, fs4, Raised e) \<longrightarrow>
                   run env kills w fs =
                     (evs1 @ evs2 @
                      [if e = WorkerKilledException then Status ''worker killed''
                       else Error e (Running_backup (src w)), Finished], fs4, Returned)) \<and>
                (run_child env w d fs3 name = (evs2, fs4, Returned) \<longrightarrow>
                   (\<exists>rest fs'. run env kills w fs =
                                  (evs1 @ evs2 @ rest @ [Finished], fs', Returned))) \<and>
                (join (src w) name \<notin> set (ignore_files w) \<and>
                 \<not> isdir env fs3 (join (src w) name) \<and> isfile env fs3 (join (src w) name) \<and>
                 \<not> ignore_this (ignore_extensions w) name \<longrightarrow>
                   run_child env w d fs3 name =
                     copy_decision env fs3 (join (src w) name) (join d name)
                       (join d name)))))"
  proof (intro impI, elim conjE, intro conjI impI)
    assume s: "isdir env fs (src w)"
       and m: "if isdir env fs (dst w) then fs1 = fs
               else makedirs env fs (dst w) = (None, fs1)"
    {
      assume "root w \<and> makedirs env fs1 (join (dst w) (name_of (src w))) = (Some e, fs2)"
      then show "run env kills w fs =
            ([if e = OSError
              then Error OSError (Creating_directory (join (dst w) (name_of (src w))))
              else if e = WorkerKilledException then Status ''worker killed''
              else Error e (Running_backup (src w)), Finished], fs2, Returned)"
        using nested [OF s m] by blast
    }
    assume n: "if root w
         then makedirs env fs1 (join (dst w) (name_of (src w))) = (None, fs2) \<and>
              d = join (dst w) (name_of (src w))
         else fs2 = fs1 \<and> d = dst w"
    {
      assume "listdir env fs2 (src w) = Inl e"
      then show "run env kills w fs =
               ([if e = WorkerKilledException then Status ''worker killed''
                 else Error e (Running_backup (src w)), Finished], fs2, Returned)"
        by (rule listing [OF s m n])
    }
    assume lp: "listdir env fs2 (src w) = Inr (pre @ name # post) \<and>
           run_names env kills w d 0 fs2 pre = (evs1, fs3, Returned)"
    then have l: "listdir env fs2 (src w) = Inr (pre @ name # post)"
      and p: "run_names env kills w d 0 fs2 pre = (evs1, fs3, Returned)"
      by blast+
    {
      assume "is_killed w \<or> kills (length pre)"
      then show "run env kills w fs =
                  (evs1 @ [Status ''worker killed'', Finished], fs3, Returned)"
        by (rule killed [OF s m n l p])
    }
    assume k: "\<not> (is_killed w \<or> kills (length pre))"
    {
      assume "run_child env w d fs3 name = (evs2, fs4, Raised e)"
      then show "run env kills w fs =
                     (evs1 @ evs2 @
                      [if e = WorkerKilledException then Status ''worker killed''
                       else Error e (Running_backup (src w)), Finished], fs4, Returned)"
        by (rule raised [OF s m n l p k])
    }
    {
      assume "run_child env w d fs3 name = (evs2, fs4, Returned)"
      then show "\<exists>rest fs'. run env kills w fs =
                                  (evs1 @ evs2 @ rest @ [Finished], fs', Returned)"
        by (rule returned [OF s m n l p k])
    }
    {
      assume "join (src w) name \<notin> set (ignore_files w) \<and>
                 \<not> isdir env fs3 (join (src w) name) \<and> isfile env fs3 (join (src w) name) \<and>
                 \<not> ignore_this (ignore_extensions w) name"
      then show "run_child env w d fs3 name =
                     copy_decision env fs3 (join (src w) name) (join d name) (join d name)"
        using met [of w name env fs3 d] by blast
    }
  qed
  have chosen:
    "\<not> isdir env fs (src w) \<and> isfile env fs (src w) \<and>
     \<not> ignore_this (ignore_extensions w) (name_of (src w)) \<longrightarrow>
       (copy_decision env fs (src w) (join (dst w) (name_of (src w))) (dst w) =
          (evs2, fs4, Raised e) \<longrightarrow>
        run env kills w fs =
          (evs2 @ [if e = WorkerKilledException then Status ''worker killed''
                   else Error e (Running_backup (src w)), Finished], fs4, Returned)) \<and>
       (copy_decision env fs (src w) (join (dst w) (name_of (src w))) (dst w) =
          (evs2, fs4, Returned) \<longrightarrow>
        run env kills w fs = (evs2 @ [Finished], fs4, Returned))"
  proof (intro impI conjI)
    assume a: "\<not> isdir env fs (src w) \<and> isfile env fs (src w) \<and>
               \<not> ignore_this (ignore_extensions w) (name_of (src w))"
    then have a1: "\<not> isdir env fs (src w)" and a2: "isfile env fs (src w)"
      and a3: "\<not> ignore_this (ignore_extensions w) (name_of (src w))" by blast+
    {
      assume c: "copy_decision env fs (src w) (join (dst w) (name_of (src w))) (dst w) =
                   (evs2, fs4, Raised e)"
      show "run env kills w fs =
          (evs2 @ [if e = WorkerKilledException then Status ''worker killed''
                   else Error e (Running_backup (src w)), Finished], fs4, Returned)"
        using selected [OF a1 a2 a3 c, where e = e] by blast
    }
    {
      assume c: "copy_decision env fs (src w) (join (dst w) (name_of (src w))) (dst w) =
                   (evs2, fs4, Returned)"
      show "run env kills w fs = (evs2 @ [Finished], fs4, Returned)"
        using selected [OF a1 a2 a3 c, where e = e] by blast
    }
  qed
  have first': "isdir env fs (src w) \<and> \<not> isdir env fs (dst w) \<and>
     makedirs env fs (dst w) = (Some e, fs1) \<longrightarrow>
       run env kills w fs =
         ([if e = WorkerKilledException then Status ''worker killed''
           else Error e (Running_backup (src w)), Finished], fs1, Returned)"
    using first by blast
  show ?thesis
    apply (rule conjI [OF total])
    apply (rule conjI [OF first'])
    apply (rule conjI [OF directory])
    apply (rule conjI [OF chosen])
    apply (rule decision)
    done
qed

text \<open>
  A worker whose destination is a file of the source: \<^verbatim>\<open>os.makedirs\<close> raises and the
  handler reports it. A root worker whose directory in the backup is taken by a file:
  the error \<^verbatim>\<open>error creating directory\<close>. A kill that arrives after the first pass:
  the status \<^verbatim>\<open>worker killed\<close> after the events of that pass. A backup whose copies
  are all refused: the pass for \<open>pic.jpg\<close> emits its error event, and the run keeps the
  error events of both files. Sizes that cannot be read: the handler reports the
  exception for a selected file and for the first file of a directory. A directory that
  cannot be listed: the handler reports it. A refused overwrite, and modification times
  that cannot be read, in the copy decision.
\<close>

theorem run_never_raises_witness:
  "faults_are_Exceptions fs_env \<and> faults_are_Exceptions denied_env \<and>
   run fs_env no_kill blocked_worker docs_fs =
     ([Error OSError (Running_backup [''home'', ''docs'']), Finished], docs_fs, Returned) \<and>
   run fs_env no_kill docs_worker occupied_fs =
     ([Error OSError (Creating_directory [''backup'', ''docs'']), Finished],
      occupied_fs, Returned) \<and>
   run fs_env kill_after_first docs_worker docs_fs =
     ([Status ''a.txt...'',
       Copy2 [''home'', ''docs'', ''a.txt''] [''backup'', ''docs'', ''a.txt''],
       Progress 1, Memory_count 3, Status ''worker killed'', Finished],
      docs_a_copied_fs, Returned) \<and>
   run_child denied_env docs_worker [''backup'', ''docs''] docs_started_fs ''pic.jpg'' =
     ([Status ''pic.jpg...'',
       Copy2 [''home'', ''docs'', ''pic.jpg''] [''backup'', ''docs'', ''pic.jpg''],
       Error OSError (Copying_new_file [''home'', ''docs'', ''pic.jpg''])],
      docs_started_fs, Returned) \<and>
   (\<exists>rest fs'.
      run denied_env no_kill docs_worker docs_fs =
        ([Status ''a.txt...'',
          Copy2 [''home'', ''docs'', ''a.txt''] [''backup'', ''docs'', ''a.txt''],
          Error OSError (Copying_new_file [''home'', ''docs'', ''a.txt''])] @
         [Status ''pic.jpg...'',
          Copy2 [''home'', ''docs'', ''pic.jpg''] [''backup'', ''docs'', ''pic.jpg''],
          Error OSError (Copying_new_file [''home'', ''docs'', ''pic.jpg''])] @
         rest @ [Finished], fs', Returned)) \<and>
   snd (snd (run_try fs_env no_kill blocked_worker docs_fs)) = Raised OSError \<and>
   (\<exists>evs fs'. run fs_env no_kill blocked_worker docs_fs = (evs @ [Finished], fs', Returned) \<and>
      (\<forall>e. snd (snd (run_try fs_env no_kill blocked_worker docs_fs)) = Raised e \<longrightarrow>
            (if e = WorkerKilledException then Status ''worker killed''
             else Error e (Running_backup (src blocked_worker))) \<in> set evs)) \<and>
   faults_are_Exceptions unreadable_env \<and>
   run unreadable_env no_kill a_worker docs_fs =
     ([Error OSError (Running_backup [''home'', ''docs'', ''a.txt'']), Finished],
      docs_fs, Returned) \<and>
   run unreadable_env no_kill docs_worker docs_fs =
     ([Error OSError (Running_backup [''home'', ''docs'']), Finished],
      docs_started_fs, Returned) \<and>
   faults_are_Exceptions unlistable_env \<and>
   run unlistable_env no_kill docs_worker docs_fs =
     ([Error OSError (Running_backup [''home'', ''docs'']), Finished],
      docs_started_fs, Returned) \<and>
   copy_decision denied_env docs_again_fs [''home'', ''docs'', ''a.txt'']
       [''backup'', ''docs'', ''a.txt''] [''backup'', ''docs'', ''a.txt''] =
     ([Status ''a.txt...'',
       Copy2 [''home'', ''docs'', ''a.txt''] [''backup'', ''docs'', ''a.txt''],
       Error OSError (Overwriting_file [''home'', ''docs'', ''a.txt'']), Progress 1],
      docs_again_fs, Returned) \<and>
   faults_are_Exceptions (no_mtime_env [[''home'', ''docs'', ''a.txt'']]) \<and>
   copy_decision (no_mtime_env [[''home'', ''docs'', ''a.txt'']]) docs_again_fs
       [''home'', ''docs'', ''a.txt''] [''backup'', ''docs'', ''a.txt'']
       [''backup'', ''docs'', ''a.txt''] =
     ([], docs_again_fs, Raised OSError) \<and>
   copy_decision (no_mtime_env [[''backup'', ''docs'', ''a.txt'']]) docs_again_fs
       [''home'', ''docs'', ''a.txt''] [''backup'', ''docs'', ''a.txt'']
       [''backup'', ''docs'', ''a.txt''] =
     ([], docs_again_fs, Raised OSError)"
proof -
  let ?d = "[''backup'', ''docs'']"
  let ?a = "[Status ''a.txt...'',
             Copy2 [''home'', ''docs'', ''a.txt''] [''backup'', ''docs'', ''a.txt''],
             Progress 1, Memory_count 3]"
  let ?x = "[Status ''a.txt...'',
             Copy2 [''home'', ''docs'', ''a.txt''] [''backup'', ''docs'', ''a.txt''],
             Error OSError (Copying_new_file [''home'', ''docs'', ''a.txt''])]"
  let ?y = "[Status ''pic.jpg...'',
             Copy2 [''home'', ''docs'', ''pic.jpg''] [''backup'', ''docs'', ''pic.jpg''],
             Error OSError (Copying_new_file [''home'', ''docs'', ''pic.jpg''])]"
  note f = fs_env_faults
  note g = denied_env_faults

  have b: "isdir fs_env docs_fs (src blocked_worker) \<and>
           \<not> isdir fs_env docs_fs (dst blocked_worker) \<and>
           makedirs fs_env docs_fs (dst blocked_worker) = (Some OSError, docs_fs)"
    by code_simp
  have b': "src blocked_worker = [''home'', ''docs'']" by code_simp
  have 1: "run fs_env no_kill blocked_worker docs_fs =
     ([Error OSError (Running_backup [''home'', ''docs'']), Finished], docs_fs, Returned)"
    using run_never_raises
        [OF f, where kills = no_kill and w = blocked_worker and fs = docs_fs
           and e = OSError and ?fs1.0 = docs_fs,
         THEN conjunct2, THEN conjunct1, THEN mp, OF b] b'
    by simp

  have o: "isdir fs_env occupied_fs (src docs_worker) \<and>
           (if isdir fs_env occupied_fs (dst docs_worker) then occupied_fs = occupied_fs
            else makedirs fs_env occupied_fs (dst docs_worker) = (None, occupied_fs))"
    by code_simp
  have o2: "root docs_worker \<and>
            makedirs fs_env occupied_fs (join (dst docs_worker) (name_of (src docs_worker))) =
              (Some OSError, occupied_fs)"
    by code_simp
  have o': "join (dst docs_worker) (name_of (src docs_worker)) = [''backup'', ''docs'']"
    by code_simp
  have 2: "run fs_env no_kill docs_worker occupied_fs =
     ([Error OSError (Creating_directory [''backup'', ''docs'']), Finished],
      occupied_fs, Returned)"
    using run_never_raises
        [OF f, where kills = no_kill and w = docs_worker and fs = occupied_fs
           and e = OSError and ?fs1.0 = occupied_fs and ?fs2.0 = occupied_fs,
         THEN conjunct2, THEN conjunct2, THEN conjunct1, THEN mp, OF o,
         THEN conjunct1, THEN mp, OF o2] o'
    by simp

  have s: "isdir fs_env docs_fs (src docs_worker) \<and>
           (if isdir fs_env docs_fs (dst docs_worker) then docs_fs = docs_fs
            else makedirs fs_env docs_fs (dst docs_worker) = (None, docs_fs))"
    by code_simp
  have n: "if root docs_worker
           then makedirs fs_env docs_fs (join (dst docs_worker) (name_of (src docs_worker))) =
                  (None, docs_started_fs) \<and>
                ?d = join (dst docs_worker) (name_of (src docs_worker))
           else docs_started_fs = docs_fs \<and> ?d = dst docs_worker"
    by code_simp
  have l: "listdir fs_env docs_started_fs (src docs_worker) =
             Inr ([''a.txt''] @ ''pic.jpg'' # [''old'']) \<and>
           run_names fs_env kill_after_first docs_worker ?d 0 docs_started_fs [''a.txt''] =
             (?a, docs_a_copied_fs, Returned)"
    by code_simp
  have k: "is_killed docs_worker \<or> kill_after_first (length [''a.txt''])"
    by code_simp
  have 3: "run fs_env kill_after_first docs_worker docs_fs =
             (?a @ [Status ''worker killed'', Finished], docs_a_copied_fs, Returned)"
    by (rule run_never_raises
        [OF f, where kills = kill_after_first and w = docs_worker and fs = docs_fs
           and ?fs1.0 = docs_fs and ?fs2.0 = docs_started_fs and d = ?d
           and pre = "[''a.txt'']" and name = "''pic.jpg''" and post = "[''old'']"
           and ?evs1.0 = ?a and ?fs3.0 = docs_a_copied_fs,
         THEN conjunct2, THEN conjunct2, THEN conjunct1, THEN mp, OF s,
         THEN conjunct2, THEN mp, OF n, THEN conjunct2, THEN mp, OF l,
         THEN conjunct1, THEN mp, OF k])

  have s': "isdir denied_env docs_fs (src docs_worker) \<and>
           (if isdir denied_env docs_fs (dst docs_worker) then docs_fs = docs_fs
            else makedirs denied_env docs_fs (dst docs_worker) = (None, docs_fs))"
    by code_simp
  have n': "if root docs_worker
           then makedirs denied_env docs_fs
                  (join (dst docs_worker) (name_of (src docs_worker))) =
                  (None, docs_started_fs) \<and>
                ?d = join (dst docs_worker) (name_of (src docs_worker))
           else docs_started_fs = docs_fs \<and> ?d = dst docs_worker"
    by code_simp
  have l': "listdir denied_env docs_started_fs (src docs_worker) =
             Inr ([''a.txt''] @ ''pic.jpg'' # [''old'']) \<and>
           run_names denied_env no_kill docs_worker ?d 0 docs_started_fs [''a.txt''] =
             (?x, docs_started_fs, Returned)"
    by code_simp
  have k': "\<not> (is_killed docs_worker \<or> no_kill (length [''a.txt'']))"
    by code_simp
  have m: "join (src docs_worker) ''pic.jpg'' \<notin> set (ignore_files docs_worker) \<and>
           \<not> isdir denied_env docs_started_fs (join (src docs_worker) ''pic.jpg'') \<and>
           isfile denied_env docs_started_fs (join (src docs_worker) ''pic.jpg'') \<and>
           \<not> ignore_this (ignore_extensions docs_worker) ''pic.jpg''"
    by code_simp
  have c: "getsize denied_env docs_started_fs (join (src docs_worker) ''pic.jpg'') = Inr 7 \<and>
           \<not> isfile denied_env docs_started_fs (join ?d ''pic.jpg'') \<and>
           copy2 denied_env docs_started_fs (join (src docs_worker) ''pic.jpg'')
             (join ?d ''pic.jpg'') = (Some OSError, docs_started_fs)"
    by code_simp
  have j: "join (src docs_worker) ''pic.jpg'' = [''home'', ''docs'', ''pic.jpg'']"
          "join ?d ''pic.jpg'' = [''backup'', ''docs'', ''pic.jpg'']"
          "name_of [''home'', ''docs'', ''pic.jpg''] = ''pic.jpg''"
    by code_simp+
  note pass = run_never_raises
        [OF g, where kills = no_kill and w = docs_worker and fs = docs_fs
           and ?fs1.0 = docs_fs and ?fs2.0 = docs_started_fs and d = ?d
           and pre = "[''a.txt'']" and name = "''pic.jpg''" and post = "[''old'']"
           and ?evs1.0 = ?x and ?fs3.0 = docs_started_fs
           and ?evs2.0 = ?y and ?fs4.0 = docs_started_fs,
         THEN conjunct2, THEN conjunct2, THEN conjunct1, THEN mp, OF s',
         THEN conjunct2, THEN mp, OF n', THEN conjunct2, THEN mp, OF l',
         THEN conjunct2, THEN mp, OF k']
  have d1: "run_child denied_env docs_worker ?d docs_started_fs ''pic.jpg'' =
              copy_decision denied_env docs_started_fs (join (src docs_worker) ''pic.jpg'')
                (join ?d ''pic.jpg'') (join ?d ''pic.jpg'')"
    by (rule pass [THEN conjunct2, THEN conjunct2, THEN mp, OF m])
  have d2: "copy_decision denied_env docs_started_fs (join (src docs_worker) ''pic.jpg'')
                (join ?d ''pic.jpg'') (join ?d ''pic.jpg'') = (?y, docs_started_fs, Returned)"
    using run_never_raises
        [OF g, where fsc = docs_started_fs and source = "join (src docs_worker) ''pic.jpg''"
           and tested = "join ?d ''pic.jpg''" and target = "join ?d ''pic.jpg''"
           and file_size = 7 and e = OSError and fsc' = docs_started_fs,
         THEN conjunct2, THEN conjunct2, THEN conjunct2, THEN conjunct2,
         THEN conjunct2, THEN conjunct2, THEN conjunct2, THEN conjunct2,
         THEN mp, OF c] j
    by simp
  have 4: "run_child denied_env docs_worker ?d docs_started_fs ''pic.jpg'' =
             (?y, docs_started_fs, Returned)"
    using d1 d2 by simp
  have 5: "\<exists>rest fs'. run denied_env no_kill docs_worker docs_fs =
             (?x @ ?y @ rest @ [Finished], fs', Returned)"
    by (rule pass [THEN conjunct2, THEN conjunct1, THEN mp, OF 4])
  have r: "snd (snd (run_try fs_env no_kill blocked_worker docs_fs)) = Raised OSError"
    by code_simp
  note 6 = run_never_raises
        [OF f, where kills = no_kill and w = blocked_worker and fs = docs_fs,
         THEN conjunct1]

  note u = unreadable_env_faults
  let ?s = "[''home'', ''docs'', ''a.txt'']"
  let ?t = "[''backup'', ''docs'', ''a.txt'']"
  have a1: "\<not> isdir unreadable_env docs_fs (src a_worker) \<and>
            isfile unreadable_env docs_fs (src a_worker) \<and>
            \<not> ignore_this (ignore_extensions a_worker) (name_of (src a_worker))"
    by code_simp
  have a2: "getsize unreadable_env docs_fs (src a_worker) = Inl OSError"
    by code_simp
  have a3: "src a_worker = ?s" by code_simp
  have a4: "copy_decision unreadable_env docs_fs (src a_worker)
              (join (dst a_worker) (name_of (src a_worker))) (dst a_worker) =
              ([], docs_fs, Raised OSError)"
    by (rule run_never_raises
        [OF u, where fsc = docs_fs and source = "src a_worker" and e = OSError
           and tested = "join (dst a_worker) (name_of (src a_worker))"
           and target = "dst a_worker",
         THEN conjunct2, THEN conjunct2, THEN conjunct2, THEN conjunct2, THEN conjunct1, THEN mp, OF a2])
  have 7: "run unreadable_env no_kill a_worker docs_fs =
             ([Error OSError (Running_backup ?s), Finished], docs_fs, Returned)"
    using run_never_raises
        [OF u, where kills = no_kill and w = a_worker and fs = docs_fs and e = OSError
           and ?evs2.0 = "[]" and ?fs4.0 = docs_fs,
         THEN conjunct2, THEN conjunct2, THEN conjunct2, THEN conjunct1, THEN mp, OF a1, THEN conjunct1, THEN mp, OF a4] a3
    by simp

  have us: "isdir unreadable_env docs_fs (src docs_worker) \<and>
           (if isdir unreadable_env docs_fs (dst docs_worker) then docs_fs = docs_fs
            else makedirs unreadable_env docs_fs (dst docs_worker) = (None, docs_fs))"
    by code_simp
  have un: "if root docs_worker
           then makedirs unreadable_env docs_fs
                  (join (dst docs_worker) (name_of (src docs_worker))) =
                  (None, docs_started_fs) \<and>
                ?d = join (dst docs_worker) (name_of (src docs_worker))
           else docs_started_fs = docs_fs \<and> ?d = dst docs_worker"
    by code_simp
  have ul: "listdir unreadable_env docs_started_fs (src docs_worker) =
             Inr ([] @ ''a.txt'' # [''pic.jpg'', ''old'']) \<and>
           run_names unreadable_env no_kill docs_worker ?d 0 docs_started_fs [] =
             ([], docs_started_fs, Returned)"
    by code_simp
  have uk: "\<not> (is_killed docs_worker \<or> no_kill (length ([] :: string list)))"
    by code_simp
  have um: "join (src docs_worker) ''a.txt'' \<notin> set (ignore_files docs_worker) \<and>
           \<not> isdir unreadable_env docs_started_fs (join (src docs_worker) ''a.txt'') \<and>
           isfile unreadable_env docs_started_fs (join (src docs_worker) ''a.txt'') \<and>
           \<not> ignore_this (ignore_extensions docs_worker) ''a.txt''"
    by code_simp
  have ug: "getsize unreadable_env docs_started_fs (join (src docs_worker) ''a.txt'') =
              Inl OSError"
    by code_simp
  note upass = run_never_raises
        [OF u, where kills = no_kill and w = docs_worker and fs = docs_fs
           and ?fs1.0 = docs_fs and ?fs2.0 = docs_started_fs and d = ?d
           and pre = "[]" and name = "''a.txt''" and post = "[''pic.jpg'', ''old'']"
           and ?evs1.0 = "[]" and ?fs3.0 = docs_started_fs
           and ?evs2.0 = "[]" and ?fs4.0 = docs_started_fs and e = OSError,
         THEN conjunct2, THEN conjunct2, THEN conjunct1, THEN mp, OF us,
         THEN conjunct2, THEN mp, OF un, THEN conjunct2, THEN mp, OF ul,
         THEN conjunct2, THEN mp, OF uk]
  have u1: "run_child unreadable_env docs_worker ?d docs_started_fs ''a.txt'' =
              copy_decision unreadable_env docs_started_fs (join (src docs_worker) ''a.txt'')
                (join ?d ''a.txt'') (join ?d ''a.txt'')"
    by (rule upass [THEN conjunct2, THEN conjunct2, THEN mp, OF um])
  have u2: "copy_decision unreadable_env docs_started_fs (join (src docs_worker) ''a.txt'')
                (join ?d ''a.txt'') (join ?d ''a.txt'') = ([], docs_started_fs, Raised OSError)"
    by (rule run_never_raises
        [OF u, where fsc = docs_started_fs and source = "join (src docs_worker) ''a.txt''"
           and e = OSError and tested = "join ?d ''a.txt''" and target = "join ?d ''a.txt''",
         THEN conjunct2, THEN conjunct2, THEN conjunct2, THEN conjunct2, THEN conjunct1, THEN mp, OF ug])
  have u3: "run_child unreadable_env docs_worker ?d docs_started_fs ''a.txt'' =
              ([], docs_started_fs, Raised OSError)"
    using u1 u2 by simp
  have u4: "src docs_worker = [''home'', ''docs'']" by code_simp
  have 8: "run unreadable_env no_kill docs_worker docs_fs =
             ([Error OSError (Running_backup [''home'', ''docs'']), Finished],
              docs_started_fs, Returned)"
    using upass [THEN conjunct1, THEN mp, OF u3] u4 by simp

  note v = unlistable_env_faults
  have vs: "isdir unlistable_env docs_fs (src docs_worker) \<and>
           (if isdir unlistable_env docs_fs (dst docs_worker) then docs_fs = docs_fs
            else makedirs unlistable_env docs_fs (dst docs_worker) = (None, docs_fs))"
    by code_simp
  have vn: "if root docs_worker
           then makedirs unlistable_env docs_fs
                  (join (dst docs_worker) (name_of (src docs_worker))) =
                  (None, docs_started_fs) \<and>
                ?d = join (dst docs_worker) (name_of (src docs_worker))
           else docs_started_fs = docs_fs \<and> ?d = dst docs_worker"
    by code_simp
  have vl: "listdir unlistable_env docs_started_fs (src docs_worker) = Inl OSError"
    by code_simp
  have 9: "run unlistable_env no_kill docs_worker docs_fs =
             ([Error OSError (Running_backup [''home'', ''docs'']), Finished],
              docs_started_fs, Returned)"
    using run_never_raises
        [OF v, where kills = no_kill and w = docs_worker and fs = docs_fs
           and ?fs1.0 = docs_fs and ?fs2.0 = docs_started_fs and d = ?d and e = OSError,
         THEN conjunct2, THEN conjunct2, THEN conjunct1, THEN mp, OF vs,
         THEN conjunct2, THEN mp, OF vn, THEN conjunct1, THEN mp, OF vl] u4
    by simp

  have w4: "getsize denied_env docs_again_fs ?s = Inr 3 \<and> isfile denied_env docs_again_fs ?t \<and>
            getmtime denied_env docs_again_fs ?s = Inr 10 \<and>
            getmtime denied_env docs_again_fs ?t = Inr 8 \<and> (8 :: int) < 10 \<and>
            copy2 denied_env docs_again_fs ?s ?t = (Some OSError, docs_again_fs)"
    by code_simp
  have nm: "name_of ?s = ''a.txt''" by code_simp
  have 10: "copy_decision denied_env docs_again_fs ?s ?t ?t =
     ([Status ''a.txt...'', Copy2 ?s ?t, Error OSError (Overwriting_file ?s), Progress 1],
      docs_again_fs, Returned)"
    using run_never_raises
        [OF g, where fsc = docs_again_fs and source = ?s and tested = ?t and target = ?t
           and file_size = 3 and src_time = 10 and dest_time = 8 and e = OSError
           and fsc' = docs_again_fs,
         THEN conjunct2, THEN conjunct2, THEN conjunct2, THEN conjunct2, THEN conjunct2, THEN conjunct2, THEN conjunct2, THEN conjunct1, THEN mp, OF w4] nm
    by simp

  note x1 = no_mtime_env_faults [of "[?s]"]
  note x2 = no_mtime_env_faults [of "[?t]"]
  have y1: "getsize (no_mtime_env [?s]) docs_again_fs ?s = Inr 3 \<and>
            isfile (no_mtime_env [?s]) docs_again_fs ?t \<and>
            getmtime (no_mtime_env [?s]) docs_again_fs ?s = Inl OSError"
    by code_simp
  have 11: "copy_decision (no_mtime_env [?s]) docs_again_fs ?s ?t ?t =
              ([], docs_again_fs, Raised OSError)"
    by (rule run_never_raises
        [OF x1, where fsc = docs_again_fs and source = ?s and tested = ?t and target = ?t
           and file_size = 3 and e = OSError,
         THEN conjunct2, THEN conjunct2, THEN conjunct2, THEN conjunct2, THEN conjunct2, THEN conjunct1, THEN mp, OF y1])
  have y2: "getsize (no_mtime_env [?t]) docs_again_fs ?s = Inr 3 \<and>
            isfile (no_mtime_env [?t]) docs_again_fs ?t \<and>
            getmtime (no_mtime_env [?t]) docs_again_fs ?s = Inr 10 \<and>
            getmtime (no_mtime_env [?t]) docs_again_fs ?t = Inl OSError"
    by code_simp
  have 12: "copy_decision (no_mtime_env [?t]) docs_again_fs ?s ?t ?t =
              ([], docs_again_fs, Raised OSError)"
    by (rule run_never_raises
        [OF x2, where fsc = docs_again_fs and source = ?s and tested = ?t and target = ?t
           and file_size = 3 and src_time = 10 and e = OSError,
         THEN conjunct2, THEN conjunct2, THEN conjunct2, THEN conjunct2, THEN conjunct2, THEN conjunct2, THEN conjunct1, THEN mp, OF y2])

  have 13: "run fs_env kill_after_first docs_worker docs_fs =
     ([Status ''a.txt...'',
       Copy2 [''home'', ''docs'', ''a.txt''] [''backup'', ''docs'', ''a.txt''],
       Progress 1, Memory_count 3, Status ''worker killed'', Finished],
      docs_a_copied_fs, Returned)"
    using 3 by simp
  show ?thesis
    apply (intro conjI)
    apply (rule f g 1 2 13 4 5 r 6 u 7 8 v 9 10 x1 11 12)+
    done
qed

subsection \<open>The copy decision\<close>

lemma copy_decision_present:
  assumes "getsize env fs source = Inr file_size"
      and "isfile env fs tested"
      and "getmtime env fs source = Inr src_time"
      and "getmtime env fs tested = Inr dest_time"
      and "copy2 env fs source target = (r, fs_copied)"
      and "r = None \<or> r = Some OSError"
      and "copy_decision env fs source tested target = (evs, fs', out)"
  shows "copies evs = (if dest_time < src_time then [(source, target)] else []) \<and>
         progress_emissions evs = [1] \<and>
         fs' = (if dest_time < src_time then fs_copied else fs) \<and>
         out = Returned"
  using assms
  by (auto simp: copy_decision_def check_existing_file_def split: if_splits)

lemma copy_decision_failed:
  assumes "getsize env fs source = Inr file_size"
      and "copy2 env fs source target = (r, fs_copied)"
      and "copy_decision env fs source tested target = (evs, fs', out)"
  shows "(\<not> isfile env fs tested \<and> r = Some OSError \<longrightarrow>
            Error OSError (Copying_new_file source) \<in> set evs \<and>
            progress_emissions evs = [] \<and> byte_counts evs = [] \<and> out = Returned) \<and>
         (isfile env fs tested \<and> check_existing_file env fs source tested = Inr True \<and>
          r = Some OSError \<longrightarrow>
            Error OSError (Overwriting_file source) \<in> set evs \<and>
            progress_emissions evs = [1] \<and> byte_counts evs = [] \<and> out = Returned) \<and>
         (byte_counts evs \<noteq> [] \<longrightarrow>
            r = None \<and> copies evs = [(source, target)] \<and> byte_counts evs = [file_size] \<and>
            out = Returned)"
  using assms
  by (auto simp: copy_decision_def split: if_splits sum.splits option.splits)

lemma run_child_decides:
  assumes "join (src w) name \<notin> set (ignore_files w)"
      and "\<not> isdir env fs (join (src w) name)"
      and "isfile env fs (join (src w) name)"
      and "\<not> ignore_this (ignore_extensions w) name"
  shows "run_child env w dst' fs name =
           copy_decision env fs (join (src w) name) (join dst' name) (join dst' name)"
  using assms by (simp add: run_child_def Let_def)

lemma run_of_file:
  assumes "\<not> isdir env fs (src w)" and "isfile env fs (src w)"
      and "run env kills w fs = (evs, fs', out)"
  shows "\<exists>evs0 out0. run_file env w fs = (evs0, fs', out0) \<and>
           copies evs = copies evs0 \<and> progress_emissions evs = progress_emissions evs0 \<and>
           byte_counts evs = byte_counts evs0 \<and>
           (out0 = Returned \<longrightarrow> out = Returned \<and> evs = evs0 @ [Finished])"
proof -
  obtain evs0 fs0 out0 where f: "run_file env w fs = (evs0, fs0, out0)"
    by (cases "run_file env w fs") auto
  have t: "run_try env kills w fs = (evs0, fs0, out0)"
    using assms(1,2) f by (simp add: run_try_def)
  show ?thesis
    using assms(3) t f
    by (cases out0) (auto simp: run_def split: if_splits)
qed

text \<open>
  Claim C2. A file reaches the copy decision either as a child met in the loop of a
  directory worker or as the file a root worker was made for (it is not excluded by
  path or by extension, and its size can be read). When the path tested for the
  destination is an existing file and both modification times can be read, then
  \<^verbatim>\<open>shutil.copy2\<close> is called, once, exactly when the source time is strictly greater
  than the destination time, and the file system is left as that call left it;
  otherwise no copy is called and the file system is unchanged. In both cases exactly
  one progress signal with count 1 is emitted for the file. (A call of \<^verbatim>\<open>copy2\<close>
  that raises \<^verbatim>\<open>OSError\<close> is still a call; what it leaves behind is up to the
  operating system.)
\<close>

theorem overwrite_iff_source_newer:
  assumes met:
    "(source = join (src w) name \<and> tested = join dst' name \<and> target = join dst' name \<and>
      source \<notin> set (ignore_files w) \<and> \<not> isdir env fs source \<and> isfile env fs source \<and>
      \<not> ignore_this (ignore_extensions w) name \<and>
      run_child env w dst' fs name = (evs, fs', out))
     \<or>
     (source = src w \<and> tested = join (dst w) (name_of (src w)) \<and> target = dst w \<and>
      \<not> isdir env fs source \<and> isfile env fs source \<and>
      \<not> ignore_this (ignore_extensions w) (name_of source) \<and>
      run env kills w fs = (evs, fs', out))"
    and sz: "getsize env fs source = Inr file_size"
    and ex: "isfile env fs tested"
    and ts: "getmtime env fs source = Inr src_time"
    and td: "getmtime env fs tested = Inr dest_time"
    and cp: "copy2 env fs source target = (r, fs_copied)"
    and r: "r = None \<or> r = Some OSError"
  shows "copies evs = (if dest_time < src_time then [(source, target)] else []) \<and>
         progress_emissions evs = [1] \<and>
         fs' = (if dest_time < src_time then fs_copied else fs) \<and>
         out = Returned"
  using met
proof (elim disjE conjE)
  assume a: "source = join (src w) name" "tested = join dst' name" "target = join dst' name"
    "source \<notin> set (ignore_files w)" "\<not> isdir env fs source" "isfile env fs source"
    "\<not> ignore_this (ignore_extensions w) name"
    "run_child env w dst' fs name = (evs, fs', out)"
  have "copy_decision env fs source tested target = (evs, fs', out)"
    using a run_child_decides [of w name env fs dst'] by simp
  then show ?thesis
    using copy_decision_present [OF sz ex ts td cp r] by simp
next
  assume a: "source = src w" "tested = join (dst w) (name_of (src w))" "target = dst w"
    "\<not> isdir env fs source" "isfile env fs source"
    "\<not> ignore_this (ignore_extensions w) (name_of source)"
    "run env kills w fs = (evs, fs', out)"
  obtain evs0 out0 where f: "run_file env w fs = (evs0, fs', out0)"
    and c: "copies evs = copies evs0" "progress_emissions evs = progress_emissions evs0"
    and o: "out0 = Returned \<longrightarrow> out = Returned \<and> evs = evs0 @ [Finished]"
    using run_of_file [of env fs w kills evs fs' out] a by auto
  have d: "copy_decision env fs source tested target = (evs0, fs', out0)"
    using f a by (simp add: run_file_def)
  show ?thesis
    using copy_decision_present [OF sz ex ts td cp r d] c o by simp
qed

text \<open>
  With an older copy of \<open>a.txt\<close> in the backup the file is copied again, met as a
  child or selected by itself, and the copy then has the time of the source;
  \<open>pic.jpg\<close> has the same time on both sides and is left alone. Each gives one
  progress unit.
\<close>

theorem overwrite_iff_source_newer_witness:
  "copies (fst (run_child fs_env docs_worker [''backup'', ''docs''] docs_again_fs ''a.txt''))
     = [([''home'', ''docs'', ''a.txt''], [''backup'', ''docs'', ''a.txt''])] \<and>
   progress_emissions
     (fst (run_child fs_env docs_worker [''backup'', ''docs''] docs_again_fs ''a.txt'')) = [1] \<and>
   getmtime fs_env
     (fst (snd (run_child fs_env docs_worker [''backup'', ''docs''] docs_again_fs ''a.txt'')))
     [''backup'', ''docs'', ''a.txt''] = Inr 10 \<and>
   copies (fst (run_child fs_env docs_worker [''backup'', ''docs''] docs_again_fs ''pic.jpg''))
     = [] \<and>
   progress_emissions
     (fst (run_child fs_env docs_worker [''backup'', ''docs''] docs_again_fs ''pic.jpg'')) = [1] \<and>
   fst (snd (run_child fs_env docs_worker [''backup'', ''docs''] docs_again_fs ''pic.jpg''))
     = docs_again_fs \<and>
   copies (fst (run fs_env no_kill a_worker docs_again_fs))
     = [([''home'', ''docs'', ''a.txt''], [''backup'', ''docs''])] \<and>
   progress_emissions (fst (run fs_env no_kill a_worker docs_again_fs)) = [1] \<and>
   getmtime fs_env (fst (snd (run fs_env no_kill a_worker docs_again_fs)))
     [''backup'', ''docs'', ''a.txt''] = Inr 10"
proof -
  let ?a = "run_child fs_env docs_worker [''backup'', ''docs''] docs_again_fs ''a.txt''"
  let ?p = "run_child fs_env docs_worker [''backup'', ''docs''] docs_again_fs ''pic.jpg''"
  let ?f = "run fs_env no_kill a_worker docs_again_fs"
  have c: "snd (fs_copy2 docs_again_fs [''home'', ''docs'', ''a.txt'']
                 [''backup'', ''docs'', ''a.txt'']) =
           Dir [(''home'',
                 Dir [(''docs'',
                       Dir [(''a.txt'', File 10 3), (''pic.jpg'', File 5 7),
                            (''old'', Dir [(''b.txt'', File 20 4), (''c.txt'', File 21 5)])])]),
                (''backup'',
                 Dir [(''docs'', Dir [(''a.txt'', File 10 3), (''pic.jpg'', File 5 7)])])]"
       "snd (fs_copy2 docs_again_fs [''home'', ''docs'', ''a.txt''] [''backup'', ''docs'']) =
           Dir [(''home'',
                 Dir [(''docs'',
                       Dir [(''a.txt'', File 10 3), (''pic.jpg'', File 5 7),
                            (''old'', Dir [(''b.txt'', File 20 4), (''c.txt'', File 21 5)])])]),
                (''backup'',
                 Dir [(''docs'', Dir [(''a.txt'', File 10 3), (''pic.jpg'', File 5 7)])])]"
    by (simp_all add: fs_ops docs_again_fs_def join_def name_of_def)
  have a: "copies (fst ?a) = [([''home'', ''docs'', ''a.txt''], [''backup'', ''docs'', ''a.txt''])]
           \<and> progress_emissions (fst ?a) = [1] \<and>
           fst (snd ?a) = snd (fs_copy2 docs_again_fs [''home'', ''docs'', ''a.txt'']
                                 [''backup'', ''docs'', ''a.txt''])"
    using overwrite_iff_source_newer
      [where env = fs_env and w = docs_worker and name = "''a.txt''"
         and dst' = "[''backup'', ''docs'']" and fs = docs_again_fs
         and source = "[''home'', ''docs'', ''a.txt'']"
         and tested = "[''backup'', ''docs'', ''a.txt'']"
         and target = "[''backup'', ''docs'', ''a.txt'']"
         and evs = "fst ?a" and fs' = "fst (snd ?a)" and out = "snd (snd ?a)"
         and file_size = 3 and src_time = 10 and dest_time = 8 and r = None
         and fs_copied = "snd (fs_copy2 docs_again_fs [''home'', ''docs'', ''a.txt'']
                                 [''backup'', ''docs'', ''a.txt''])"]
    by (simp add: fs_ops docs_worker_def docs_again_fs_def BackupSelection_def join_def
          name_of_def endswith_def)
  have p: "copies (fst ?p) = [] \<and> progress_emissions (fst ?p) = [1] \<and>
           fst (snd ?p) = docs_again_fs"
    using overwrite_iff_source_newer
      [where env = fs_env and w = docs_worker and name = "''pic.jpg''"
         and dst' = "[''backup'', ''docs'']" and fs = docs_again_fs
         and source = "[''home'', ''docs'', ''pic.jpg'']"
         and tested = "[''backup'', ''docs'', ''pic.jpg'']"
         and target = "[''backup'', ''docs'', ''pic.jpg'']"
         and evs = "fst ?p" and fs' = "fst (snd ?p)" and out = "snd (snd ?p)"
         and file_size = 7 and src_time = 5 and dest_time = 5 and r = None
         and fs_copied = "snd (fs_copy2 docs_again_fs [''home'', ''docs'', ''pic.jpg'']
                                 [''backup'', ''docs'', ''pic.jpg''])"]
    by (simp add: fs_ops docs_worker_def docs_again_fs_def BackupSelection_def join_def
          name_of_def endswith_def)
  have f: "copies (fst ?f) = [([''home'', ''docs'', ''a.txt''], [''backup'', ''docs''])]
           \<and> progress_emissions (fst ?f) = [1] \<and>
           fst (snd ?f) = snd (fs_copy2 docs_again_fs [''home'', ''docs'', ''a.txt'']
                                 [''backup'', ''docs''])"
    using overwrite_iff_source_newer
      [where env = fs_env and w = a_worker and kills = no_kill and fs = docs_again_fs
         and name = "[]" and dst' = "[]"
         and source = "[''home'', ''docs'', ''a.txt'']"
         and tested = "[''backup'', ''docs'', ''a.txt'']"
         and target = "[''backup'', ''docs'']"
         and evs = "fst ?f" and fs' = "fst (snd ?f)" and out = "snd (snd ?f)"
         and file_size = 3 and src_time = 10 and dest_time = 8 and r = None
         and fs_copied = "snd (fs_copy2 docs_again_fs [''home'', ''docs'', ''a.txt'']
                                 [''backup'', ''docs''])"]
    by (simp add: fs_ops a_worker_def docs_again_fs_def BackupSelection_def join_def
          name_of_def endswith_def)
  have m: "getmtime fs_env
             (Dir [(''home'',
                 Dir [(''docs'',
                       Dir [(''a.txt'', File 10 3), (''pic.jpg'', File 5 7),
                            (''old'', Dir [(''b.txt'', File 20 4), (''c.txt'', File 21 5)])])]),
                (''backup'',
                 Dir [(''docs'', Dir [(''a.txt'', File 10 3), (''pic.jpg'', File 5 7)])])])
             [''backup'', ''docs'', ''a.txt''] = Inr 10"
    by (simp add: fs_ops)
  from a p f c m show ?thesis by simp
qed

text \<open>
  Claim C4. For a file that reaches the copy decision: if the tested destination is
  absent and the copy raises \<^verbatim>\<open>OSError\<close>, an error event is emitted and no progress
  unit; if the destination is present, the source is newer and the copy raises
  \<^verbatim>\<open>OSError\<close>, an error event is emitted and one progress unit still is; and a
  byte-count event occurs only when the copy was called and returned normally, and
  then it carries the size of the source.
\<close>

theorem failed_copy_and_progress:
  assumes met:
    "(source = join (src w) name \<and> tested = join dst' name \<and> target = join dst' name \<and>
      source \<notin> set (ignore_files w) \<and> \<not> isdir env fs source \<and> isfile env fs source \<and>
      \<not> ignore_this (ignore_extensions w) name \<and>
      run_child env w dst' fs name = (evs, fs', out))
     \<or>
     (source = src w \<and> tested = join (dst w) (name_of (src w)) \<and> target = dst w \<and>
      \<not> isdir env fs source \<and> isfile env fs source \<and>
      \<not> ignore_this (ignore_extensions w) (name_of source) \<and>
      run env kills w fs = (evs, fs', out))"
    and sz: "getsize env fs source = Inr file_size"
    and cp: "copy2 env fs source target = (r, fs_copied)"
  shows "(\<not> isfile env fs tested \<and> r = Some OSError \<longrightarrow>
            Error OSError (Copying_new_file source) \<in> set evs \<and>
            progress_emissions evs = [] \<and> byte_counts evs = [] \<and> out = Returned) \<and>
         (isfile env fs tested \<and> check_existing_file env fs source tested = Inr True \<and>
          r = Some OSError \<longrightarrow>
            Error OSError (Overwriting_file source) \<in> set evs \<and>
            progress_emissions evs = [1] \<and> byte_counts evs = [] \<and> out = Returned) \<and>
         (byte_counts evs \<noteq> [] \<longrightarrow>
            r = None \<and> copies evs = [(source, target)] \<and> byte_counts evs = [file_size] \<and>
            out = Returned)"
  using met
proof (elim disjE conjE)
  assume a: "source = join (src w) name" "tested = join dst' name" "target = join dst' name"
    "source \<notin> set (ignore_files w)" "\<not> isdir env fs source" "isfile env fs source"
    "\<not> ignore_this (ignore_extensions w) name"
    "run_child env w dst' fs name = (evs, fs', out)"
  have d: "copy_decision env fs source tested target = (evs, fs', out)"
    using a run_child_decides [of w name env fs dst'] by simp
  show ?thesis
    by (rule copy_decision_failed [OF sz cp d])
next
  assume a: "source = src w" "tested = join (dst w) (name_of (src w))" "target = dst w"
    "\<not> isdir env fs source" "isfile env fs source"
    "\<not> ignore_this (ignore_extensions w) (name_of source)"
    "run env kills w fs = (evs, fs', out)"
  obtain evs0 out0 where f: "run_file env w fs = (evs0, fs', out0)"
    and c: "copies evs = copies evs0" "progress_emissions evs = progress_emissions evs0"
      "byte_counts evs = byte_counts evs0"
    and o: "out0 = Returned \<longrightarrow> out = Returned \<and> evs = evs0 @ [Finished]"
    using run_of_file [of env fs w kills evs fs' out] a by auto
  have d: "copy_decision env fs source tested target = (evs0, fs', out0)"
    using f a by (simp add: run_file_def)
  have k: "(\<not> isfile env fs tested \<and> r = Some OSError \<longrightarrow>
            Error OSError (Copying_new_file source) \<in> set evs0 \<and>
            progress_emissions evs0 = [] \<and> byte_counts evs0 = [] \<and> out0 = Returned) \<and>
         (isfile env fs tested \<and> check_existing_file env fs source tested = Inr True \<and>
          r = Some OSError \<longrightarrow>
            Error OSError (Overwriting_file source) \<in> set evs0 \<and>
            progress_emissions evs0 = [1] \<and> byte_counts evs0 = [] \<and> out0 = Returned) \<and>
         (byte_counts evs0 \<noteq> [] \<longrightarrow>
            r = None \<and> copies evs0 = [(source, target)] \<and> byte_counts evs0 = [file_size] \<and>
            out0 = Returned)"
    by (rule copy_decision_failed [OF sz cp d])
  show ?thesis
  proof (intro conjI impI)
    assume h: "\<not> isfile env fs tested \<and> r = Some OSError"
    from k h have k1: "Error OSError (Copying_new_file source) \<in> set evs0"
      "progress_emissions evs0 = []" "byte_counts evs0 = []" "out0 = Returned"
      by blast+
    from k1(4) o have e: "evs = evs0 @ [Finished]" and r: "out = Returned" by blast+
    from k1(1) e show "Error OSError (Copying_new_file source) \<in> set evs" by simp
    from k1(2) c(2) show "progress_emissions evs = []" by simp
    from k1(3) c(3) show "byte_counts evs = []" by simp
    from r show "out = Returned" .
  next
    assume h: "isfile env fs tested \<and> check_existing_file env fs source tested = Inr True \<and>
          r = Some OSError"
    from k h have k2: "Error OSError (Overwriting_file source) \<in> set evs0"
      "progress_emissions evs0 = [1]" "byte_counts evs0 = []" "out0 = Returned"
      by blast+
    from k2(4) o have e: "evs = evs0 @ [Finished]" and r: "out = Returned" by blast+
    from k2(1) e show "Error OSError (Overwriting_file source) \<in> set evs" by simp
    from k2(2) c(2) show "progress_emissions evs = [1]" by simp
    from k2(3) c(3) show "byte_counts evs = []" by simp
    from r show "out = Returned" .
  next
    assume h: "byte_counts evs \<noteq> []"
    with c(3) have h0: "byte_counts evs0 \<noteq> []" by simp
    from k h0 have k3: "r = None" "copies evs0 = [(source, target)]"
      "byte_counts evs0 = [file_size]" "out0 = Returned"
      by blast+
    from k3(1) show "r = None" .
    from k3(2) c(1) show "copies evs = [(source, target)]" by simp
    from k3(3) c(3) show "byte_counts evs = [file_size]" by simp
    from k3(4) o show "out = Returned" by blast
  qed
qed

text \<open>
  A copy into a directory that does not exist fails without a progress unit; a refused
  overwrite still counts; a successful overwrite reports its bytes.
\<close>

theorem failed_copy_and_progress_witness:
  "fst (run_child fs_env docs_worker [''nowhere''] docs_again_fs ''a.txt'') =
     [Status ''a.txt...'', Copy2 [''home'', ''docs'', ''a.txt''] [''nowhere'', ''a.txt''],
      Error OSError (Copying_new_file [''home'', ''docs'', ''a.txt''])] \<and>
   fst (run_child denied_env docs_worker [''backup'', ''docs''] docs_again_fs ''a.txt'') =
     [Status ''a.txt...'', Copy2 [''home'', ''docs'', ''a.txt''] [''backup'', ''docs'', ''a.txt''],
      Error OSError (Overwriting_file [''home'', ''docs'', ''a.txt'']), Progress 1] \<and>
   fst (run_child fs_env docs_worker [''backup'', ''docs''] docs_again_fs ''a.txt'') =
     [Status ''a.txt...'', Copy2 [''home'', ''docs'', ''a.txt''] [''backup'', ''docs'', ''a.txt''],
      Memory_count 3, Progress 1]"
proof -
  let ?n = "run_child fs_env docs_worker [''nowhere''] docs_again_fs ''a.txt''"
  let ?d = "run_child denied_env docs_worker [''backup'', ''docs''] docs_again_fs ''a.txt''"
  let ?a = "run_child fs_env docs_worker [''backup'', ''docs''] docs_again_fs ''a.txt''"
  have n: "fst ?n =
     [Status ''a.txt...'', Copy2 [''home'', ''docs'', ''a.txt''] [''nowhere'', ''a.txt''],
      Error OSError (Copying_new_file [''home'', ''docs'', ''a.txt''])]"
    using failed_copy_and_progress
      [where env = fs_env and w = docs_worker and name = "''a.txt''"
         and dst' = "[''nowhere'']" and fs = docs_again_fs
         and source = "[''home'', ''docs'', ''a.txt'']"
         and tested = "[''nowhere'', ''a.txt'']"
         and target = "[''nowhere'', ''a.txt'']"
         and evs = "fst ?n" and fs' = "fst (snd ?n)" and out = "snd (snd ?n)"
         and file_size = 3 and r = "Some OSError" and fs_copied = docs_again_fs]
    by (simp add: run_parts fs_ops Let_def docs_worker_def docs_again_fs_def)
  have d: "fst ?d =
     [Status ''a.txt...'', Copy2 [''home'', ''docs'', ''a.txt''] [''backup'', ''docs'', ''a.txt''],
      Error OSError (Overwriting_file [''home'', ''docs'', ''a.txt'']), Progress 1]"
    using failed_copy_and_progress
      [where env = denied_env and w = docs_worker and name = "''a.txt''"
         and dst' = "[''backup'', ''docs'']" and fs = docs_again_fs
         and source = "[''home'', ''docs'', ''a.txt'']"
         and tested = "[''backup'', ''docs'', ''a.txt'']"
         and target = "[''backup'', ''docs'', ''a.txt'']"
         and evs = "fst ?d" and fs' = "fst (snd ?d)" and out = "snd (snd ?d)"
         and file_size = 3 and r = "Some OSError" and fs_copied = docs_again_fs]
    by (simp add: run_parts fs_ops Let_def docs_worker_def docs_again_fs_def)
  have a: "fst ?a =
     [Status ''a.txt...'', Copy2 [''home'', ''docs'', ''a.txt''] [''backup'', ''docs'', ''a.txt''],
      Memory_count 3, Progress 1]"
    using failed_copy_and_progress
      [where env = fs_env and w = docs_worker and name = "''a.txt''"
         and dst' = "[''backup'', ''docs'']" and fs = docs_again_fs
         and source = "[''home'', ''docs'', ''a.txt'']"
         and tested = "[''backup'', ''docs'', ''a.txt'']"
         and target = "[''backup'', ''docs'', ''a.txt'']"
         and evs = "fst ?a" and fs' = "fst (snd ?a)" and out = "snd (snd ?a)"
         and file_size = 3 and r = None
         and fs_copied = "snd (fs_copy2 docs_again_fs [''home'', ''docs'', ''a.txt'']
                                 [''backup'', ''docs'', ''a.txt''])"]
    by (simp add: run_parts fs_ops Let_def docs_worker_def docs_again_fs_def)
  from n d a show ?thesis by simp
qed

subsection \<open>Excluded extensions\<close>

lemma ignore_this_iff:
  "ignore_this extensions name \<longleftrightarrow> (\<exists>extension \<in> set extensions. endswith name extension)"
  by (induction extensions) auto

lemma run_child_ignored:
  assumes "ignore_this (ignore_extensions w) name"
      and "\<not> isdir env fs (join (src w) name)" and "isfile env fs (join (src w) name)"
  shows "run_child env w dst' fs name =
           (if join (src w) name \<in> set (ignore_files w)
            then ([Progress 1, Status (name_of (join (src w) name))], fs, Returned)
            else ([Progress 1,
                   Status (''ignoring extension: '' @ name_of (join (src w) name) @ ''...'')],
                  fs, Returned))"
  using assms by (simp add: run_child_def Let_def)

lemma run_file_ignored:
  assumes "ignore_this (ignore_extensions w) (name_of (src w))"
      and "\<not> isdir env fs (src w)" and "isfile env fs (src w)"
  shows "run env kills w fs =
           ([Status (name_of (src w) @ ''...''), Progress 1, Finished], fs, Returned)"
  using assms by (simp add: run_def run_try_def run_file_def)

text \<open>
  Claim C5. A file whose name ends with one of the excluded extensions, met as a child
  in the loop of a directory worker or being the file of a root worker, is never
  handed to \<^verbatim>\<open>shutil.copy2\<close>; the file system is unchanged, no byte count is
  emitted, and exactly one progress signal with count 1 is.
\<close>

theorem excluded_extension_never_copied:
  assumes ext: "extension \<in> set (ignore_extensions w)" "endswith nm extension"
    and met:
      "(nm = name \<and> \<not> isdir env fs (join (src w) name) \<and> isfile env fs (join (src w) name) \<and>
        run_child env w dst' fs name = (evs, fs', out))
       \<or>
       (nm = name_of (src w) \<and> \<not> isdir env fs (src w) \<and> isfile env fs (src w) \<and>
        run env kills w fs = (evs, fs', out))"
  shows "copies evs = [] \<and> progress_emissions evs = [1] \<and> byte_counts evs = [] \<and>
         fs' = fs \<and> out = Returned"
proof -
  have ig: "ignore_this (ignore_extensions w) nm"
    using ext ignore_this_iff by blast
  show ?thesis
    using met
  proof (elim disjE conjE)
    assume "nm = name" "\<not> isdir env fs (join (src w) name)" "isfile env fs (join (src w) name)"
      "run_child env w dst' fs name = (evs, fs', out)"
    then show ?thesis
      using ig run_child_ignored [of w name env fs dst'] by (auto split: if_splits)
  next
    assume "nm = name_of (src w)" "\<not> isdir env fs (src w)" "isfile env fs (src w)"
      "run env kills w fs = (evs, fs', out)"
    then show ?thesis
      using ig run_file_ignored [of w env fs kills] by auto
  qed
qed

text \<open>With \<open>jpg\<close> excluded, \<open>pic.jpg\<close> is skipped as a child and as a selection.\<close>

theorem excluded_extension_never_copied_witness:
  "run_child fs_env docs_worker_no_jpg [''backup'', ''docs''] docs_fs ''pic.jpg'' =
     ([Progress 1, Status ''ignoring extension: pic.jpg...''], docs_fs, Returned) \<and>
   run fs_env no_kill pic_worker_no_jpg docs_fs =
     ([Status ''pic.jpg...'', Progress 1, Finished], docs_fs, Returned)"
proof -
  let ?c = "run_child fs_env docs_worker_no_jpg [''backup'', ''docs''] docs_fs ''pic.jpg''"
  let ?f = "run fs_env no_kill pic_worker_no_jpg docs_fs"
  have c: "?c = ([Progress 1, Status ''ignoring extension: pic.jpg...''], docs_fs, Returned)"
    using excluded_extension_never_copied
      [where extension = "''jpg''" and w = docs_worker_no_jpg and nm = "''pic.jpg''"
         and name = "''pic.jpg''" and env = fs_env and fs = docs_fs
         and dst' = "[''backup'', ''docs'']"
         and evs = "fst ?c" and fs' = "fst (snd ?c)" and out = "snd (snd ?c)"]
    by (simp add: run_parts fs_ops Let_def docs_worker_no_jpg_def docs_fs_def)
  have f: "?f = ([Status ''pic.jpg...'', Progress 1, Finished], docs_fs, Returned)"
    using excluded_extension_never_copied
      [where extension = "''jpg''" and w = pic_worker_no_jpg and nm = "''pic.jpg''"
         and env = fs_env and fs = docs_fs and kills = no_kill
         and evs = "fst ?f" and fs' = "fst (snd ?f)" and out = "snd (snd ?f)"]
    by (simp add: run_parts fs_ops Let_def pic_worker_no_jpg_def docs_fs_def)
  from c f show ?thesis by simp
qed


lemma endswith_empty: "endswith s []"
  by (simp add: endswith_def)

lemma ignore_this_empty: "[] \<in> set extensions \<Longrightarrow> ignore_this extensions name"
  using ignore_this_iff endswith_empty by blast

lemma split_not_Nil: "split sep s \<noteq> []"
  by (cases s) auto

lemma split_snoc_sep: "split sep (s @ [sep]) = split sep s @ [[]]"
  by (induction s) (auto simp: split_not_Nil)

lemma trailing_comma_gives_empty_extension:
  "[] \<in> set (excluded_extensions_of (s @ '',''))"
  using split_snoc_sep [of "CHR '',''" s] by (simp add: excluded_extensions_of_def)

text \<open>
  With the empty string among its excluded extensions a worker calls no copy and
  reports no bytes, whatever the file system does, and every worker it hands to the
  pool has the same extensions; so a whole backup started from such a text copies
  nothing.
\<close>

lemma child_copies_nothing:
  assumes "ignores_all w"
  shows "copies (fst (run_child env w d fs name)) = [] \<and>
         byte_counts (fst (run_child env w d fs name)) = [] \<and>
         list_all ignores_all (spawned (fst (run_child env w d fs name)))"
  using assms ignore_this_empty [of "ignore_extensions w" name]
  by (simp add: run_child_def Let_def ignores_all_def BackupSelection_def)

lemma names_copy_nothing:
  assumes "ignores_all w"
  shows "copies (fst (run_names env kills w d i fs names)) = [] \<and>
         byte_counts (fst (run_names env kills w d i fs names)) = [] \<and>
         list_all ignores_all (spawned (fst (run_names env kills w d i fs names)))"
proof (induction names arbitrary: i fs)
  case Nil
  show ?case by simp
next
  case (Cons name names)
  show ?case
  proof (cases "is_killed w \<or> kills i")
    case True
    then show ?thesis by simp
  next
    case False
    obtain evs fs' out where c: "run_child env w d fs name = (evs, fs', out)"
      by (cases "run_child env w d fs name") auto
    have e: "copies evs = [] \<and> byte_counts evs = [] \<and> list_all ignores_all (spawned evs)"
      using child_copies_nothing [OF assms, of env d fs name] c by simp
    show ?thesis
    proof (cases out)
      case Returned
      obtain evs2 fs2 out2
        where r: "run_names env kills w d (Suc i) fs' names = (evs2, fs2, out2)"
        by (cases "run_names env kills w d (Suc i) fs' names") auto
      have "copies evs2 = [] \<and> byte_counts evs2 = [] \<and> list_all ignores_all (spawned evs2)"
        using Cons.IH [of "Suc i" fs'] r by simp
      with False c e Returned r show ?thesis by simp
    next
      case (Raised x)
      with False c e show ?thesis by simp
    qed
  qed
qed

lemma run_copies_nothing:
  assumes "ignores_all w"
  shows "copies (fst (run env kills w fs)) = [] \<and>
         byte_counts (fst (run env kills w fs)) = [] \<and>
         list_all ignores_all (spawned (fst (run env kills w fs)))"
proof -
  have n: "copies (fst (run_names env kills w d i s names)) = [] \<and>
         byte_counts (fst (run_names env kills w d i s names)) = [] \<and>
         list_all ignores_all (spawned (fst (run_names env kills w d i s names)))"
    for d i s names
    by (rule names_copy_nothing [OF assms])
  have l: "copies (fst (run_listing env kills w d s)) = [] \<and>
         byte_counts (fst (run_listing env kills w d s)) = [] \<and>
         list_all ignores_all (spawned (fst (run_listing env kills w d s)))" for d s
    using n by (simp add: run_listing_def split: sum.splits)
  have d: "copies (fst (run_dir env kills w fs)) = [] \<and>
         byte_counts (fst (run_dir env kills w fs)) = [] \<and>
         list_all ignores_all (spawned (fst (run_dir env kills w fs)))"
    using l by (simp add: run_dir_def Let_def split: prod.splits option.splits)
  have f: "copies (fst (run_file env w fs)) = [] \<and>
         byte_counts (fst (run_file env w fs)) = [] \<and>
         list_all ignores_all (spawned (fst (run_file env w fs)))"
    using assms ignore_this_empty [of "ignore_extensions w" "name_of (src w)"]
    by (simp add: run_file_def ignores_all_def)
  have t: "copies (fst (run_try env kills w fs)) = [] \<and>
         byte_counts (fst (run_try env kills w fs)) = [] \<and>
         list_all ignores_all (spawned (fst (run_try env kills w fs)))"
    using d f by (simp add: run_try_def)
  obtain evs fs' out where r: "run_try env kills w fs = (evs, fs', out)"
    by (cases "run_try env kills w fs") auto
  with t show ?thesis
    by (cases out) (simp_all add: run_def)
qed

lemma deliver_keeps_ignoring:
  assumes "pool_ignores_all mw" and "list_all ignores_all (spawned [ev])"
  shows "pool_ignores_all (deliver mw ev)"
proof (cases ev)
  case (Error e m)
  with assms(1) show ?thesis
    by (auto simp: pool_ignores_all_def process_error_def cancel_backup_def kill_all_def
          kill_def set_gui_state_def update_status_def Let_def list_all_iff ignores_all_def)
next
  case (Progress n)
  with assms(1) show ?thesis
    by (auto simp: pool_ignores_all_def update_progress_def save_backup_log_def cleanup_def
          set_gui_state_def Let_def list_all_iff)
next
  case (Memory_count n)
  with assms(1) show ?thesis
    by (auto simp: pool_ignores_all_def update_memory_count_def list_all_iff)
next
  case (Status s)
  with assms(1) show ?thesis
    by (auto simp: pool_ignores_all_def update_status_def list_all_iff)
next
  case Finished
  with assms(1) show ?thesis by simp
next
  case (New_thread c)
  with assms show ?thesis
    by (auto simp: pool_ignores_all_def enqueue_def list_all_iff nth_append)
next
  case (Copy2 s d)
  with assms(1) show ?thesis by simp
qed

lemma deliveries_keep_ignoring:
  "pool_ignores_all mw \<Longrightarrow> list_all ignores_all (spawned evs) \<Longrightarrow>
   pool_ignores_all (foldl deliver mw evs)"
proof (induction evs arbitrary: mw)
  case Nil
  then show ?case by simp
next
  case (Cons ev evs)
  have 1: "list_all ignores_all (spawned [ev])" and 2: "list_all ignores_all (spawned evs)"
    using Cons.prems(2) by (cases ev; simp)+
  from deliver_keeps_ignoring [OF Cons.prems(1) 1] have "pool_ignores_all (deliver mw ev)" .
  from Cons.IH [OF this 2] show ?case by simp
qed

lemma pool_copies_nothing:
  "pool_ignores_all mw \<Longrightarrow> run_pool n env mw fs = Some (mw', fs', evs) \<Longrightarrow>
   copies evs = [] \<and> byte_counts evs = []"
proof (induction n arbitrary: mw fs mw' fs' evs)
  case 0
  then show ?case by (cases "threadpool mw") auto
next
  case (Suc n)
  show ?case
  proof (cases "threadpool mw")
    case Nil
    with Suc.prems(2) show ?thesis by simp
  next
    case (Cons i rest)
    from Suc.prems(1) Cons have i: "i < length (workers mw)" "ignores_all (workers mw ! i)"
      and rest: "pool_ignores_all (mw\<lparr>threadpool := rest\<rparr>)"
      by (simp_all add: pool_ignores_all_def)
    obtain evs1 fs1 out1 where r: "run env no_kill (workers mw ! i) fs = (evs1, fs1, out1)"
      by (cases "run env no_kill (workers mw ! i) fs") auto
    from run_copies_nothing [OF i(2), of env no_kill fs] r
    have e1: "copies evs1 = []" "byte_counts evs1 = []" "list_all ignores_all (spawned evs1)"
      by simp_all
    from Suc.prems(2) Cons i(1) r obtain evs2
      where p: "run_pool n env (foldl deliver (mw\<lparr>threadpool := rest\<rparr>) evs1) fs1
                  = Some (mw', fs', evs2)"
        and ev: "evs = evs1 @ evs2"
      by (auto split: option.splits)
    from Suc.IH [OF deliveries_keep_ignoring [OF rest e1(3)] p] e1 ev show ?thesis by simp
  qed
qed

lemma enqueue_all_ignoring:
  assumes "pool_ignores_all m0" and "\<And>item. ignores_all (f item)"
  shows "pool_ignores_all (foldl (\<lambda>m item. enqueue (f item) m) m0 items)"
  using assms(1)
proof (induction items arbitrary: m0)
  case Nil
  then show ?case by simp
next
  case (Cons item items)
  have "pool_ignores_all (enqueue (f item) m0)"
    using Cons.prems assms(2) [of item]
    by (auto simp: pool_ignores_all_def enqueue_def list_all_iff nth_append)
  from Cons.IH [OF this] show ?case by simp
qed

lemma run_backup_ignoring:
  assumes "threadpool mw = []" and "[] \<in> set (excluded_extensions_of (input_exclude_by mw))"
  shows "pool_ignores_all (run_backup env fs mw)"
proof (cases "root_backup_dir mw")
  case None
  with assms(1) show ?thesis by (simp add: run_backup_def pool_ignores_all_def)
next
  case (Some b)
  let ?m = "(set_max_progress_value (count_total_files env fs (files_to_include_model mw))
              (set_gui_state False mw))
            \<lparr>excluded_extensions_list := excluded_extensions_of (input_exclude_by mw)\<rparr>"
  have 0: "pool_ignores_all ?m"
    using assms(1)
    by (simp add: pool_ignores_all_def set_max_progress_value_def set_gui_state_def)
  have 1: "ignores_all (BackupSelection item b (files_to_exclude_model mw)
             (excluded_extensions_of (input_exclude_by mw)) True)" for item
    using assms(2) by (simp add: ignores_all_def BackupSelection_def)
  from enqueue_all_ignoring [OF 0, of "\<lambda>item. BackupSelection item b (files_to_exclude_model mw)
             (excluded_extensions_of (input_exclude_by mw)) True", OF 1]
  show ?thesis
    using Some
    by (simp add: run_backup_def Let_def pool_ignores_all_def set_max_progress_value_def
          set_gui_state_def)
qed

text \<open>
  Claim C9. When the list of excluded extensions contains the empty string, every name
  ends with an excluded extension. A file met in the loop that is not excluded by its
  path then gives exactly the progress unit and the status \<^verbatim>\<open>ignoring extension\<close>; any
  file met in the loop gives one progress unit, no call of \<^verbatim>\<open>shutil.copy2\<close> and an
  unchanged file system; and a root worker for a file emits its status, one progress
  unit and \<^verbatim>\<open>finished\<close>, without a copy. A whole backup started from an idle window
  whose text of excluded extensions gives the empty string calls \<^verbatim>\<open>shutil.copy2\<close>
  for no file and reports no bytes, in any of its workers. The empty string is in the
  list whenever the text of the line edit ends with a comma, as \<^verbatim>\<open>jpg,png,\<close> does.
\<close>

theorem empty_extension_ignores_every_file:
  "([] \<in> set (ignore_extensions w) \<and>
    \<not> isdir env fs (join (src w) name) \<and> isfile env fs (join (src w) name) \<and>
    join (src w) name \<notin> set (ignore_files w) \<longrightarrow>
      run_child env w dst' fs name =
        ([Progress 1,
          Status (''ignoring extension: '' @ name_of (join (src w) name) @ ''...'')],
         fs, Returned)) \<and>
   ([] \<in> set (ignore_extensions w) \<and>
    \<not> isdir env fs (join (src w) name) \<and> isfile env fs (join (src w) name) \<longrightarrow>
      copies (fst (run_child env w dst' fs name)) = [] \<and>
      progress_emissions (fst (run_child env w dst' fs name)) = [1] \<and>
      fst (snd (run_child env w dst' fs name)) = fs) \<and>
   ([] \<in> set (ignore_extensions w) \<and> \<not> isdir env fs (src w) \<and> isfile env fs (src w) \<longrightarrow>
      run env kills w fs =
        ([Status (name_of (src w) @ ''...''), Progress 1, Finished], fs, Returned)) \<and>
   (threadpool mw = [] \<and> [] \<in> set (excluded_extensions_of (input_exclude_by mw)) \<and>
    run_pool n env (run_backup env fs mw) fs = Some (mw', fs', evs) \<longrightarrow>
      copies evs = [] \<and> byte_counts evs = []) \<and>
   [] \<in> set (excluded_extensions_of (text' @ '','')) \<and>
   excluded_extensions_of ''jpg,png,'' = [''jpg'', ''png'', []]"
proof -
  have ig: "[] \<in> set (ignore_extensions w) \<Longrightarrow> ignore_this (ignore_extensions w) n" for n
    by (rule ignore_this_empty)
  have c: "[] \<in> set (ignore_extensions w) \<and>
           \<not> isdir env fs (join (src w) name) \<and> isfile env fs (join (src w) name) \<Longrightarrow>
        run_child env w dst' fs name =
           (if join (src w) name \<in> set (ignore_files w)
            then ([Progress 1, Status (name_of (join (src w) name))], fs, Returned)
            else ([Progress 1,
                   Status (''ignoring extension: '' @ name_of (join (src w) name) @ ''...'')],
                  fs, Returned))"
    using run_child_ignored [OF ig, where env = env and fs = fs and name = name and dst' = dst']
    by simp
  have f: "[] \<in> set (ignore_extensions w) \<and> \<not> isdir env fs (src w) \<and> isfile env fs (src w) \<Longrightarrow>
        run env kills w fs =
           ([Status (name_of (src w) @ ''...''), Progress 1, Finished], fs, Returned)"
    using run_file_ignored [OF ig, where env = env and fs = fs and kills = kills] by simp
  have p: "threadpool mw = [] \<and> [] \<in> set (excluded_extensions_of (input_exclude_by mw)) \<and>
           run_pool n env (run_backup env fs mw) fs = Some (mw', fs', evs) \<Longrightarrow>
           copies evs = [] \<and> byte_counts evs = []"
  proof -
    assume a: "threadpool mw = [] \<and> [] \<in> set (excluded_extensions_of (input_exclude_by mw)) \<and>
           run_pool n env (run_backup env fs mw) fs = Some (mw', fs', evs)"
    have i: "pool_ignores_all (run_backup env fs mw)"
      using a by (intro run_backup_ignoring) simp_all
    have r: "run_pool n env (run_backup env fs mw) fs = Some (mw', fs', evs)"
      using a by blast
    show ?thesis
      by (rule pool_copies_nothing [OF i r])
  qed
  have t: "[] \<in> set (excluded_extensions_of (text' @ '',''))"
    by (rule trailing_comma_gives_empty_extension)
  have j: "excluded_extensions_of ''jpg,png,'' = [''jpg'', ''png'', []]"
    by (simp add: excluded_extensions_of_def)
  from c f p t j show ?thesis by auto
qed

text \<open>
  The extensions of \<^verbatim>\<open>jpg,png,\<close> make the worker skip \<open>a.txt\<close>, and the backup of the
  documents skips all four files.
\<close>

theorem empty_extension_ignores_every_file_witness:
  "[] \<in> set (ignore_extensions docs_worker_trailing_comma) \<and>
   run_child fs_env docs_worker_trailing_comma [''backup'', ''docs''] docs_fs ''a.txt'' =
     ([Progress 1, Status ''ignoring extension: a.txt...''], docs_fs, Returned) \<and>
   run fs_env no_kill a_worker_trailing_comma docs_fs =
     ([Status ''a.txt...'', Progress 1, Finished], docs_fs, Returned) \<and>
   map_option (snd \<circ> snd)
     (run_pool 2 fs_env (run_backup fs_env docs_fs docs_window_trailing_comma) docs_fs) =
     Some [Progress 1, Status ''ignoring extension: a.txt...'',
           Progress 1, Status ''ignoring extension: pic.jpg...'',
           New_thread (BackupSelection [''home'', ''docs'', ''old'']
                         [''backup'', ''docs'', ''old''] [] [''jpg'', ''png'', []] False),
           Finished,
           Progress 1, Status ''ignoring extension: b.txt...'',
           Progress 1, Status ''ignoring extension: c.txt...'',
           Finished] \<and>
   map_option (copies \<circ> snd \<circ> snd)
     (run_pool 2 fs_env (run_backup fs_env docs_fs docs_window_trailing_comma) docs_fs) =
     Some []"
proof -
  let ?w = docs_worker_trailing_comma
  let ?v = a_worker_trailing_comma
  let ?r = "run_pool 2 fs_env (run_backup fs_env docs_fs docs_window_trailing_comma) docs_fs"
  have e: "[] \<in> set (ignore_extensions ?w)"
    by (simp add: docs_worker_trailing_comma_def BackupSelection_def excluded_extensions_of_def)
  have e2: "[] \<in> set (ignore_extensions ?v)"
    by (simp add: a_worker_trailing_comma_def BackupSelection_def excluded_extensions_of_def)
  have p: "\<not> isdir fs_env docs_fs (join (src ?w) ''a.txt'') \<and>
           isfile fs_env docs_fs (join (src ?w) ''a.txt'') \<and>
           join (src ?w) ''a.txt'' \<notin> set (ignore_files ?w)"
    by (simp add: fs_ops docs_worker_trailing_comma_def BackupSelection_def docs_fs_def
          join_def)
  have p2: "\<not> isdir fs_env docs_fs (src ?v) \<and> isfile fs_env docs_fs (src ?v)"
    by (simp add: fs_ops a_worker_trailing_comma_def BackupSelection_def docs_fs_def)
  have n: "name_of (join (src ?w) ''a.txt'') = ''a.txt''" "name_of (src ?v) = ''a.txt''"
    by (simp_all add: docs_worker_trailing_comma_def a_worker_trailing_comma_def
          BackupSelection_def join_def name_of_def)
  have q1: "threadpool docs_window_trailing_comma = []"
    by (simp add: docs_window_trailing_comma_def docs_window_def init_window_def)
  have q2: "[] \<in> set (excluded_extensions_of (input_exclude_by docs_window_trailing_comma))"
    by (simp add: docs_window_trailing_comma_def excluded_extensions_of_def)
  have q3: "?r = Some (fst (the ?r), fst (snd (the ?r)), snd (snd (the ?r)))"
    by code_simp
  have q4: "map_option (snd \<circ> snd) ?r =
     Some [Progress 1, Status ''ignoring extension: a.txt...'',
           Progress 1, Status ''ignoring extension: pic.jpg...'',
           New_thread (BackupSelection [''home'', ''docs'', ''old'']
                         [''backup'', ''docs'', ''old''] [] [''jpg'', ''png'', []] False),
           Finished,
           Progress 1, Status ''ignoring extension: b.txt...'',
           Progress 1, Status ''ignoring extension: c.txt...'',
           Finished]"
    by code_simp
  note t = empty_extension_ignores_every_file
      [where env = fs_env and fs = docs_fs and name = "''a.txt''"
         and dst' = "[''backup'', ''docs'']" and kills = no_kill and text' = "[]"
         and mw = docs_window_trailing_comma and n = 2
         and mw' = "fst (the ?r)" and fs' = "fst (snd (the ?r))"
         and evs = "snd (snd (the ?r))"]
  have c: "run_child fs_env ?w [''backup'', ''docs''] docs_fs ''a.txt'' =
     ([Progress 1, Status (''ignoring extension: '' @ name_of (join (src ?w) ''a.txt'') @ ''...'')],
      docs_fs, Returned)"
    using e p t [where w = ?w] by blast
  have f: "run fs_env no_kill ?v docs_fs =
     ([Status (name_of (src ?v) @ ''...''), Progress 1, Finished], docs_fs, Returned)"
    using e2 p2 t [where w = ?v] by blast
  have g: "copies (snd (snd (the ?r))) = []"
    using q1 q2 q3 t [where w = ?w] by blast
  have h: "map_option (copies \<circ> snd \<circ> snd) ?r = Some []"
    using g q3 by (metis comp_apply option.simps(9) snd_conv)
  from e c f n q4 h show ?thesis by simp
qed

subsection \<open>Cancellation\<close>

lemma killed_run_names:
  "is_killed w \<or> kills i \<Longrightarrow>
   run_names env kills w dst' i fs (name # names) = ([], fs, Raised WorkerKilledException)"
  by simp

lemma killed_run_listing:
  assumes "is_killed w"
  shows "progress_emissions (fst (run_listing env kills w d fs)) = [] \<and>
         copies (fst (run_listing env kills w d fs)) = [] \<and>
         spawned (fst (run_listing env kills w d fs)) = []"
proof (cases "listdir env fs (src w)")
  case (Inl e)
  then show ?thesis by (simp add: run_listing_def)
next
  case (Inr names)
  then show ?thesis using assms by (cases names) (simp_all add: run_listing_def)
qed

lemma killed_run_dir:
  assumes "is_killed w"
  shows "progress_emissions (fst (run_dir env kills w fs)) = [] \<and>
         copies (fst (run_dir env kills w fs)) = [] \<and>
         spawned (fst (run_dir env kills w fs)) = []"
  using killed_run_listing [OF assms, of env kills]
  by (simp add: run_dir_def Let_def split: prod.splits option.splits)

lemma killed_directory_run:
  assumes "is_killed w" and "isdir env fs (src w)"
  shows "progress_emissions (fst (run env kills w fs)) = [] \<and>
         copies (fst (run env kills w fs)) = [] \<and>
         spawned (fst (run env kills w fs)) = []"
proof -
  obtain evs fs' out where d: "run_dir env kills w fs = (evs, fs', out)"
    by (cases "run_dir env kills w fs") auto
  have k: "progress_emissions evs = [] \<and> copies evs = [] \<and> spawned evs = []"
    using killed_run_dir [OF assms(1), of env kills fs] d by simp
  have t: "run_try env kills w fs = (evs, fs', out)"
    using assms(2) d by (simp add: run_try_def)
  show ?thesis
    using t k by (cases out) (simp_all add: run_def)
qed

text \<open>
  Claim C6, as the code has it. \<^verbatim>\<open>kill_all\<close> (and so \<^verbatim>\<open>cancel_backup\<close>) sets the flag
  of every worker that is in the list of the window when it runs. There is no shared
  flag: a worker enqueued afterwards is appended as it is, and a new worker is made
  with its flag unset. A worker whose flag reads as set at the test that opens a pass
  of the loop does not begin that pass; one whose flag is set when it starts on a
  directory emits no progress unit, calls no copy and hands no child to the pool.
\<close>

theorem kill_all_reaches_tracked_workers:
  "list_all is_killed (workers (kill_all mw)) \<and>
   list_all is_killed (workers (cancel_backup mw)) \<and>
   workers (enqueue c (kill_all mw)) = map kill (workers mw) @ [c] \<and>
   is_killed (BackupSelection source destination ignored extensions root_input) = False \<and>
   (is_killed w \<or> kills i \<longrightarrow>
      run_names env kills w dst' i fs (name # names) = ([], fs, Raised WorkerKilledException)) \<and>
   (is_killed w \<and> isdir env fs (src w) \<longrightarrow>
      progress_emissions (fst (run env kills w fs)) = [] \<and>
      copies (fst (run env kills w fs)) = [] \<and>
      spawned (fst (run env kills w fs)) = [])"
proof -
  have a: "list_all is_killed (workers (kill_all mw))"
    by (simp add: kill_all_def kill_def list_all_iff)
  have b: "list_all is_killed (workers (cancel_backup mw))"
    by (simp add: cancel_backup_def set_gui_state_def update_status_def kill_all_def kill_def
          Let_def list_all_iff)
  have c: "workers (enqueue c (kill_all mw)) = map kill (workers mw) @ [c]"
    by (simp add: enqueue_def kill_all_def)
  have d: "is_killed (BackupSelection source destination ignored extensions root_input) = False"
    by (simp add: BackupSelection_def)
  from a b c d killed_run_names [of w kills i env dst' fs name names]
    killed_directory_run [of w env fs kills]
  show ?thesis by blast
qed


text \<open>The worker for the documents, killed before it starts.\<close>

theorem kill_all_reaches_tracked_workers_witness:
  "is_killed (kill docs_worker) \<and> isdir fs_env docs_fs (src (kill docs_worker)) \<and>
   run_names fs_env no_kill (kill docs_worker) [''backup'', ''docs''] 0 docs_fs
      [''a.txt'', ''pic.jpg'', ''old''] = ([], docs_fs, Raised WorkerKilledException) \<and>
   progress_emissions (fst (run fs_env no_kill (kill docs_worker) docs_fs)) = [] \<and>
   copies (fst (run fs_env no_kill (kill docs_worker) docs_fs)) = [] \<and>
   spawned (fst (run fs_env no_kill (kill docs_worker) docs_fs)) = []"
proof -
  let ?w = "kill docs_worker"
  have k: "is_killed ?w" by (simp add: kill_def)
  have d: "isdir fs_env docs_fs (src ?w)"
    by (simp add: kill_def fs_ops docs_worker_def BackupSelection_def docs_fs_def)
  note t = kill_all_reaches_tracked_workers
    [where w = ?w and kills = no_kill and i = 0 and env = fs_env
       and dst' = "[''backup'', ''docs'']" and fs = docs_fs and name = "''a.txt''"
       and names = "[''pic.jpg'', ''old'']" and mw = init_window and c = docs_worker
       and source = "[]" and destination = "[]" and ignored = "[]" and extensions = "[]"
       and root_input = True]
  from t k d show ?thesis by blast
qed

text \<open>
  Claim C6, as stated, fails. In the course \<open>cancel_race\<close> one cancellation is
  requested. When the pool has finished, the worker for \<open>old\<close>, enqueued after the
  request, and the worker for \<open>older\<close>, created after the request by that worker, have
  their flags unset, and the latter has copied \<open>d.txt\<close>.
\<close>

theorem late_worker_escapes_cancellation:
  "map_option (map is_killed \<circ> workers \<circ> fst) cancel_race = Some [True, False, False] \<and>
   map_option (map src \<circ> workers \<circ> fst) cancel_race =
     Some [[''home'', ''docs''], [''home'', ''docs'', ''old''],
           [''home'', ''docs'', ''old'', ''older'']] \<and>
   map_option (copies \<circ> snd \<circ> snd) cancel_race =
     Some [([''home'', ''docs'', ''old'', ''older'', ''d.txt''],
            [''backup'', ''docs'', ''old'', ''older'', ''d.txt''])]"
  by code_simp

subsection \<open>The counters of the window\<close>

lemma enqueue_all_frame:
  "progress (foldl (\<lambda>m item. enqueue (f item) m) m0 items) = progress m0 \<and>
   total_memory (foldl (\<lambda>m item. enqueue (f item) m) m0 items) = total_memory m0"
  by (induction items arbitrary: m0) (auto simp: enqueue_def)

lemma run_backup_frame:
  "progress (run_backup env fs mw) = progress mw \<and>
   total_memory (run_backup env fs mw) = total_memory mw"
  by (simp add: run_backup_def Let_def enqueue_all_frame set_gui_state_def
        set_max_progress_value_def split: option.splits)

lemma apply_op_frame:
  "progress (apply_op env fs mw op) = progress mw \<and>
   total_memory (apply_op env fs mw op) = total_memory mw"
  by (cases op)
     (auto simp: cleanup_def set_gui_state_def update_status_def set_max_progress_value_def
        save_backup_log_def enqueue_def kill_all_def cancel_backup_def process_error_def
        run_backup_frame add_directory_def add_files_def exclude_directory_def
        exclude_files_def set_backup_directory_def closeEvent_def save_settings_def
        load_settings_def Let_def split: option.splits)

lemma apply_ops_frame:
  "progress (foldl (apply_op env fs) mw ops) = progress mw \<and>
   total_memory (foldl (apply_op env fs) mw ops) = total_memory mw"
  by (induction ops arbitrary: mw) (auto simp: apply_op_frame)

text \<open>
  Claim C10. \<^verbatim>\<open>cleanup\<close> empties the selection lists and their models, the text of
  the extension input and the value of the progress bar, and leaves \<open>progress\<close> and
  \<open>total_memory\<close> as they are. \<^verbatim>\<open>update_progress\<close> adds to \<open>progress\<close> also when it
  completes the run and calls \<^verbatim>\<open>cleanup\<close>; no sequence of the other methods of the
  window changes either counter, so the next \<^verbatim>\<open>run_backup\<close> starts from the counts
  the previous run reached.
\<close>

theorem cleanup_keeps_counters:
  "progress (cleanup mw) = progress mw \<and>
   total_memory (cleanup mw) = total_memory mw \<and>
   included_paths_list (cleanup mw) = [] \<and>
   excluded_paths_list (cleanup mw) = [] \<and>
   excluded_extensions_list (cleanup mw) = [] \<and>
   files_to_include_model (cleanup mw) = [] \<and>
   files_to_exclude_model (cleanup mw) = [] \<and>
   input_exclude_by (cleanup mw) = [] \<and>
   progress_bar_value (cleanup mw) = 0 \<and>
   progress (update_progress n mw) = progress mw + n \<and>
   total_memory (update_progress n mw) = total_memory mw \<and>
   progress (foldl (apply_op env fs) mw ops) = progress mw \<and>
   total_memory (foldl (apply_op env fs) mw ops) = total_memory mw \<and>
   progress (run_backup env fs' (foldl (apply_op env fs) (update_progress n mw) ops))
     = progress mw + n \<and>
   total_memory (run_backup env fs' (foldl (apply_op env fs) (update_progress n mw) ops))
     = total_memory mw"
proof -
  have u: "progress (update_progress n mw) = progress mw + n \<and>
           total_memory (update_progress n mw) = total_memory mw"
    by (simp add: update_progress_def Let_def save_backup_log_def cleanup_def
          set_gui_state_def)
  have c: "progress (cleanup mw) = progress mw \<and>
   total_memory (cleanup mw) = total_memory mw \<and>
   included_paths_list (cleanup mw) = [] \<and>
   excluded_paths_list (cleanup mw) = [] \<and>
   excluded_extensions_list (cleanup mw) = [] \<and>
   files_to_include_model (cleanup mw) = [] \<and>
   files_to_exclude_model (cleanup mw) = [] \<and>
   input_exclude_by (cleanup mw) = [] \<and>
   progress_bar_value (cleanup mw) = 0"
    by (simp add: cleanup_def)
  have f: "progress (foldl (apply_op env fs) m ops) = progress m \<and>
           total_memory (foldl (apply_op env fs) m ops) = total_memory m" for m
    by (rule apply_ops_frame)
  have r: "progress (run_backup env fs' m) = progress m \<and>
           total_memory (run_backup env fs' m) = total_memory m" for m
    by (rule run_backup_frame)
  from u c f r show ?thesis by simp
qed

subsection \<open>Completion and repetition on concrete file systems\<close>

text \<open>
  Progress in the loop of a directory worker, child by child, when no error is
  reported: one unit for a child excluded by its path, be it a file or a directory,
  none for a directory handed to the pool, one for a file.
\<close>

lemma copy_decision_progress:
  assumes "copy_decision env fs a t d = (evs, fs', Returned)"
      and "\<forall>e c. Error e c \<notin> set evs"
  shows "progress_emissions evs = [1]"
  using assms
  by (auto simp: copy_decision_def split: sum.splits prod.splits option.splits if_splits)

lemma child_progress_accounting:
  assumes first: "run_child env w d fs name = (evs, fs', Returned)"
      and ok: "\<forall>e c. Error e c \<notin> set evs"
  shows "progress_emissions evs =
           (if join (src w) name \<in> set (ignore_files w) then [1]
            else if isdir env fs (join (src w) name) then []
            else if isfile env fs (join (src w) name) then [1]
            else [])"
proof -
  let ?a = "join (src w) name"
  show ?thesis
  proof (cases "?a \<notin> set (ignore_files w) \<and> \<not> isdir env fs ?a \<and> isfile env fs ?a \<and>
                \<not> ignore_this (ignore_extensions w) name")
    case True
    with first have "copy_decision env fs ?a (join d name) (join d name) = (evs, fs', Returned)"
      by (simp add: run_child_def Let_def)
    from copy_decision_progress [OF this ok] True show ?thesis by simp
  next
    case False
    with first show ?thesis
      by (auto simp: run_child_def Let_def split: if_splits)
  qed
qed

text \<open>
  Writing to a path of the file system: the path then holds what was written, a path
  that is neither above nor below it holds what it held, nothing can be written below
  a file, and whatever lies above an existing path is a directory.
\<close>

lemma lookup_put_same: "put p n fs = Some fs' \<Longrightarrow> lookup p fs' = Some n"
proof (induction p n fs arbitrary: fs' rule: put.induct)
  case (1 new m s)
  then show ?case by simp
next
  case (2 new entries)
  then show ?case by simp
next
  case (3 c p new m s)
  then show ?case by simp
next
  case (4 c p new entries)
  show ?case
  proof (cases "map_of entries c")
    case None
    with "4.prems" show ?thesis
      by (auto simp: update_conv' split: if_splits)
  next
    case (Some child)
    with "4.prems" obtain child' where c: "put p new child = Some child'"
      and f: "fs' = Dir (AList.update c child' entries)"
      by (auto split: option.splits)
    from "4.IH" [OF Some c] have "lookup p child' = Some new" .
    with f show ?thesis by (simp add: update_conv')
  qed
qed

lemma lookup_put_other:
  "put p n fs = Some fs' \<Longrightarrow> \<not> prefix p q \<Longrightarrow> \<not> prefix q p \<Longrightarrow> lookup q fs' = lookup q fs"
proof (induction p n fs arbitrary: fs' q rule: put.induct)
  case (1 new m s)
  then show ?case by simp
next
  case (2 new entries)
  then show ?case by simp
next
  case (3 c p new m s)
  then show ?case by simp
next
  case (4 c p new entries)
  from "4.prems"(3) obtain c' q' where q: "q = c' # q'" by (cases q) auto
  show ?case
  proof (cases "c' = c")
    case False
    with "4.prems"(1) q show ?thesis
      by (auto simp: update_conv' split: option.splits if_splits)
  next
    case True
    with "4.prems"(2,3) q have n: "\<not> prefix p q'" "\<not> prefix q' p" by auto
    show ?thesis
    proof (cases "map_of entries c")
      case None
      with "4.prems"(1) n show ?thesis by (auto split: if_splits)
    next
      case (Some child)
      with "4.prems"(1) obtain child' where c: "put p new child = Some child'"
        and f: "fs' = Dir (AList.update c child' entries)"
        by (auto split: option.splits)
      from "4.IH" [OF Some c n] have "lookup q' child' = lookup q' child" .
      with f q True Some show ?thesis by (simp add: update_conv')
    qed
  qed
qed

lemma lookup_below_file:
  "lookup p fs = Some (File m s) \<Longrightarrow> strict_prefix p q \<Longrightarrow> lookup q fs = None"
proof (induction p fs arbitrary: q rule: lookup.induct)
  case (1 n)
  then show ?case by (cases q) auto
next
  case (2 c p m' s')
  then show ?case by simp
next
  case (3 c p entries)
  from "3.prems"(2) obtain q' where q: "q = c # q'" and s: "strict_prefix p q'"
    by (cases q) auto
  from "3.prems"(1) obtain child where m: "map_of entries c = Some child"
    and l: "lookup p child = Some (File m s)"
    by (auto split: option.splits)
  from "3.IH" [OF m l s] q m show ?case by simp
qed

lemma put_below_file:
  "lookup p fs = Some (File m s) \<Longrightarrow> strict_prefix p q \<Longrightarrow> put q n fs = None"
proof (induction p fs arbitrary: q rule: lookup.induct)
  case (1 n')
  then show ?case by (cases q) auto
next
  case (2 c p m' s')
  then show ?case by simp
next
  case (3 c p entries)
  from "3.prems"(2) obtain q' where q: "q = c # q'" and s: "strict_prefix p q'"
    by (cases q) auto
  from "3.prems"(1) obtain child where m: "map_of entries c = Some child"
    and l: "lookup p child = Some (File m s)"
    by (auto split: option.splits)
  from "3.IH" [OF m l s] q m show ?case by simp
qed

lemma lookup_above:
  "lookup q fs = Some x \<Longrightarrow> strict_prefix p q \<Longrightarrow> \<exists>entries. lookup p fs = Some (Dir entries)"
proof (induction p fs arbitrary: q rule: lookup.induct)
  case (1 n)
  then show ?case by (cases q; cases n) auto
next
  case (2 c p m' s')
  then show ?case by (cases q) auto
next
  case (3 c p entries)
  from "3.prems"(2) obtain q' where q: "q = c # q'" and s: "strict_prefix p q'"
    by (cases q) auto
  from "3.prems"(1) q obtain child where m: "map_of entries c = Some child"
    and l: "lookup q' child = Some x"
    by (auto split: option.splits)
  from "3.IH" [OF m l s] m show ?case by simp
qed

text \<open>
  A second pass over a file. If \<^verbatim>\<open>shutil.copy2\<close> lands on the path the code tests,
  and that path is not a directory, the copy has the time of the source; a pass that
  reported no error therefore leaves a state in which another pass over the same file
  calls no copy and emits just its progress unit. This holds for a child whose
  destination path is not a directory, and for a selected file when the backup
  directory exists and the destination path is not a directory.
\<close>

lemma copy_lands_on_tested:
  assumes src: "lookup a s = Some (File m sz)"
      and land: "tested = (if fs_isdir s target then join target (name_of a) else target)"
      and nodir: "\<not> fs_isdir s tested"
      and cp: "fs_copy2 s a target = (None, s')"
  shows "lookup a s' = Some (File m sz) \<and> lookup tested s' = Some (File m sz)"
proof -
  from cp src land have ne: "tested \<noteq> a" and pt: "put tested (File m sz) s = Some s'"
    by (auto simp: fs_copy2_def Let_def split: option.splits if_splits)
  have 1: "\<not> prefix a tested"
  proof
    assume "prefix a tested"
    with ne have "strict_prefix a tested" by (simp add: strict_prefix_def)
    from put_below_file [OF src this, of "File m sz"] pt show False by simp
  qed
  have 2: "\<not> prefix tested a"
  proof
    assume "prefix tested a"
    with ne have "strict_prefix tested a" by (simp add: strict_prefix_def)
    from lookup_above [OF src this] nodir show False by (auto simp: fs_isdir_def)
  qed
  from lookup_put_other [OF pt 2 1] lookup_put_same [OF pt] src show ?thesis by simp
qed

lemma decision_second_pass:
  assumes src: "lookup a s = Some (File m sz)"
      and land: "tested = (if fs_isdir s target then join target (name_of a) else target)"
      and nodir: "\<not> fs_isdir s tested"
      and first: "copy_decision fs_env s a tested target = (evs, s', Returned)"
      and ok: "\<forall>e c. Error e c \<notin> set evs"
  shows "lookup a s' = Some (File m sz) \<and>
         copy_decision fs_env s' a tested target = ([Progress 1], s', Returned)"
proof (cases "fs_isfile s tested")
  case True
  then obtain mb szb where b: "lookup tested s = Some (File mb szb)"
    by (auto simp: fs_isfile_def split: option.splits node.splits)
  show ?thesis
  proof (cases "mb < m")
    case False
    with first src b have "s' = s"
      by (simp add: copy_decision_def check_existing_file_def fs_ops)
    with False src b show ?thesis
      by (simp add: copy_decision_def check_existing_file_def fs_ops)
  next
    case newer: True
    with first ok src b have cp: "fs_copy2 s a target = (None, s')"
      by (auto simp: copy_decision_def check_existing_file_def fs_env_def fs_isfile_def
            fs_getsize_def fs_getmtime_def split: prod.splits option.splits if_splits)
    from copy_lands_on_tested [OF src land nodir cp] show ?thesis
      by (simp add: copy_decision_def check_existing_file_def fs_env_def fs_isfile_def
            fs_getsize_def fs_getmtime_def)
  qed
next
  case False
  with first ok src have cp: "fs_copy2 s a target = (None, s')"
    by (auto simp: copy_decision_def check_existing_file_def fs_env_def
          fs_getsize_def fs_getmtime_def split: prod.splits option.splits if_splits)
  from copy_lands_on_tested [OF src land nodir cp] show ?thesis
    by (simp add: copy_decision_def check_existing_file_def fs_env_def fs_isfile_def
          fs_getsize_def fs_getmtime_def)
qed

lemma child_second_pass:
  assumes isf: "fs_isfile s (join (src w) name)"
      and nodir: "\<not> fs_isdir s (join d name)"
      and first: "run_child fs_env w d s name = (evs, s', Returned)"
      and ok: "\<forall>e c. Error e c \<notin> set evs"
  shows "copies (fst (run_child fs_env w d s' name)) = [] \<and>
         byte_counts (fst (run_child fs_env w d s' name)) = [] \<and>
         progress_emissions (fst (run_child fs_env w d s' name)) = [1] \<and>
         fst (snd (run_child fs_env w d s' name)) = s'"
proof -
  let ?a = "join (src w) name"
  from isf obtain m sz where src: "lookup ?a s = Some (File m sz)"
    by (auto simp: fs_isfile_def split: option.splits node.splits)
  then have nd: "\<not> fs_isdir s ?a" by (simp add: fs_isdir_def)
  show ?thesis
  proof (cases "?a \<in> set (ignore_files w) \<or> ignore_this (ignore_extensions w) name")
    case True
    with first isf nd have "s' = s"
      by (auto simp: run_child_def Let_def fs_env_def split: if_splits)
    with True isf nd show ?thesis
      by (auto simp: run_child_def Let_def fs_env_def)
  next
    case False
    with first isf nd
    have d1: "copy_decision fs_env s ?a (join d name) (join d name) = (evs, s', Returned)"
      by (simp add: run_child_def Let_def fs_env_def)
    have land: "join d name = (if fs_isdir s (join d name)
                  then join (join d name) (name_of ?a) else join d name)"
      using nodir by simp
    from decision_second_pass [OF src land nodir d1 ok]
    have a': "lookup ?a s' = Some (File m sz)"
      and d2: "copy_decision fs_env s' ?a (join d name) (join d name)
                 = ([Progress 1], s', Returned)"
      by simp_all
    from a' have "fs_isfile s' ?a" "\<not> fs_isdir s' ?a"
      by (simp_all add: fs_isfile_def fs_isdir_def)
    with False d2 show ?thesis
      by (simp add: run_child_def Let_def fs_env_def)
  qed
qed

lemma file_second_pass:
  assumes isf: "fs_isfile s (src w)"
      and dir: "fs_isdir s (dst w)"
      and nodir: "\<not> fs_isdir s (join (dst w) (name_of (src w)))"
      and first: "run fs_env kills w s = (evs, s', out)"
      and ok: "\<forall>e c. Error e c \<notin> set evs"
  shows "copies (fst (run fs_env kills w s')) = [] \<and>
         byte_counts (fst (run fs_env kills w s')) = [] \<and>
         progress_emissions (fst (run fs_env kills w s')) = [1] \<and>
         fst (snd (run fs_env kills w s')) = s'"
proof -
  let ?a = "src w"
  let ?t = "join (dst w) (name_of (src w))"
  from isf obtain m sz where src: "lookup ?a s = Some (File m sz)"
    by (auto simp: fs_isfile_def split: option.splits node.splits)
  then have nd: "\<not> fs_isdir s ?a" by (simp add: fs_isdir_def)
  show ?thesis
  proof (cases "ignore_this (ignore_extensions w) (name_of ?a)")
    case True
    with first isf nd have "s' = s"
      by (auto simp: run_def run_try_def run_file_def fs_env_def)
    with True isf nd show ?thesis
      by (auto simp: run_def run_try_def run_file_def fs_env_def)
  next
    case False
    obtain evs0 out0 where d1: "copy_decision fs_env s ?a ?t (dst w) = (evs0, s', out0)"
      and ev: "out0 = Returned \<longrightarrow> evs = evs0 @ [Finished]"
      and ex: "\<And>e. out0 = Raised e \<Longrightarrow> e = WorkerKilledException \<or>
                 Error e (Running_backup ?a) \<in> set evs \<or> \<not> is_Exception e"
      using first False isf nd
      by (cases "copy_decision fs_env s ?a ?t (dst w)"; cases "snd (snd (copy_decision fs_env s ?a ?t (dst w)))")
         (auto simp: run_def run_try_def run_file_def fs_env_def split: if_splits)
    have r: "out0 = Returned"
    proof (cases out0)
      case Returned
      then show ?thesis .
    next
      case (Raised e)
      have "e = OSError"
        using d1 Raised src
        by (auto simp: copy_decision_def check_existing_file_def fs_env_def fs_getsize_def
              fs_getmtime_def fs_isfile_def fs_copy2_def Let_def
              split: if_splits option.splits node.splits prod.splits)
      with ex [OF Raised] ok show ?thesis by auto
    qed
    with d1 ev ok have d1': "copy_decision fs_env s ?a ?t (dst w) = (evs0, s', Returned)"
      and ok0: "\<forall>e c. Error e c \<notin> set evs0"
      by auto
    have land: "?t = (if fs_isdir s (dst w) then join (dst w) (name_of ?a) else dst w)"
      using dir by simp
    from decision_second_pass [OF src land nodir d1' ok0]
    have a': "lookup ?a s' = Some (File m sz)"
      and d2: "copy_decision fs_env s' ?a ?t (dst w) = ([Progress 1], s', Returned)"
      by simp_all
    from a' have "fs_isfile s' ?a" "\<not> fs_isdir s' ?a"
      by (simp_all add: fs_isfile_def fs_isdir_def)
    with False d2 show ?thesis
      by (simp add: run_def run_try_def run_file_def fs_env_def)
  qed
qed

text \<open>
  The documents without any exclusion: the window counts 4 files, reaches 4, writes
  its log and unlocks; and a second run over the result copies nothing.
\<close>

lemma docs_run_completes:
  "count_total_files fs_env docs_fs (files_to_include_model docs_window) = 4 \<and>
   map_option (progress \<circ> fst) (run_pool 2 fs_env (run_backup fs_env docs_fs docs_window) docs_fs)
     = Some 4 \<and>
   map_option (gui_unlocked \<circ> fst)
     (run_pool 2 fs_env (run_backup fs_env docs_fs docs_window) docs_fs) = Some True \<and>
   map_option (length \<circ> backup_logs \<circ> fst)
     (run_pool 2 fs_env (run_backup fs_env docs_fs docs_window) docs_fs) = Some 1"
  by code_simp

lemma docs_second_run_copies_nothing:
  "backup_twice 2 fs_env docs_window docs_fs =
     Some ([Status ''a.txt...'',
            Copy2 [''home'', ''docs'', ''a.txt''] [''backup'', ''docs'', ''a.txt''],
            Progress 1, Memory_count 3,
            Status ''pic.jpg...'',
            Copy2 [''home'', ''docs'', ''pic.jpg''] [''backup'', ''docs'', ''pic.jpg''],
            Progress 1, Memory_count 7,
            New_thread (BackupSelection [''home'', ''docs'', ''old'']
                          [''backup'', ''docs'', ''old''] [] [] False),
            Finished,
            Status ''b.txt...'',
            Copy2 [''home'', ''docs'', ''old'', ''b.txt''] [''backup'', ''docs'', ''old'', ''b.txt''],
            Progress 1, Memory_count 4,
            Status ''c.txt...'',
            Copy2 [''home'', ''docs'', ''old'', ''c.txt''] [''backup'', ''docs'', ''old'', ''c.txt''],
            Progress 1, Memory_count 5,
            Finished],
           [Progress 1, Progress 1,
            New_thread (BackupSelection [''home'', ''docs'', ''old'']
                          [''backup'', ''docs'', ''old''] [] [] False),
            Finished, Progress 1, Progress 1, Finished])"
  by code_simp

text \<open>
  Claim C1 says that on every run without error and without cancellation the progress
  units emitted add up to what \<^verbatim>\<open>count_total_files\<close> gave for the selection, also
  when a directory is excluded. The code does not do that on the run below, in which
  the directory \<open>old\<close>, holding two files, is excluded: \<^verbatim>\<open>count_total_files\<close> gives
  4; the workers emit 3 progress units in all (one for \<open>old\<close>) and no error; when
  the pool is empty the window has \<open>progress = 3\<close> against a maximum of 4, is still
  locked and has written no log.
\<close>

theorem excluded_directory_stalls_completion:
  "count_total_files fs_env docs_fs (files_to_include_model docs_window_without_old) = 4 \<and>
   map_option (snd \<circ> snd)
      (run_pool 1 fs_env (run_backup fs_env docs_fs docs_window_without_old) docs_fs)
     = Some [Status ''a.txt...'',
             Copy2 [''home'', ''docs'', ''a.txt''] [''backup'', ''docs'', ''a.txt''],
             Progress 1, Memory_count 3,
             Status ''pic.jpg...'',
             Copy2 [''home'', ''docs'', ''pic.jpg''] [''backup'', ''docs'', ''pic.jpg''],
             Progress 1, Memory_count 7,
             Progress 1, Status ''old'', Finished] \<and>
   map_option (progress \<circ> fst)
      (run_pool 1 fs_env (run_backup fs_env docs_fs docs_window_without_old) docs_fs)
     = Some 3 \<and>
   map_option (progress_bar_maximum \<circ> fst)
      (run_pool 1 fs_env (run_backup fs_env docs_fs docs_window_without_old) docs_fs)
     = Some 4 \<and>
   map_option (gui_unlocked \<circ> fst)
      (run_pool 1 fs_env (run_backup fs_env docs_fs docs_window_without_old) docs_fs)
     = Some False \<and>
   map_option (backup_logs \<circ> fst)
      (run_pool 1 fs_env (run_backup fs_env docs_fs docs_window_without_old) docs_fs)
     = Some []"
  by code_simp

text \<open>
  Claim C8 says that the second of two runs over an unchanged source copies nothing
  and emits no byte count, with the same progress total as the first. The code does
  not do that on the two pairs of runs below, both without error: with a directory
  \<open>notes\<close> in the backup where the source has the file \<open>notes\<close>, and with a file
  selected while the backup directory does not exist, the second run calls
  \<^verbatim>\<open>shutil.copy2\<close> again and emits a byte count again. The progress totals agree.
\<close>

theorem second_run_copies_again:
  "backup_twice 1 fs_env docs_window notes_fs =
     Some ([Status ''notes...'',
            Copy2 [''home'', ''docs'', ''notes''] [''backup'', ''docs'', ''notes''],
            Progress 1, Memory_count 2, Finished],
           [Status ''notes...'',
            Copy2 [''home'', ''docs'', ''notes''] [''backup'', ''docs'', ''notes''],
            Progress 1, Memory_count 2, Finished]) \<and>
   backup_twice 1 fs_env letter_window letter_fs =
     Some ([Status ''letter.txt...'', Copy2 [''home'', ''letter.txt''] [''backup''],
            Progress 1, Memory_count 3, Finished],
           [Status ''letter.txt...'', Copy2 [''home'', ''letter.txt''] [''backup''],
            Progress 1, Memory_count 3, Finished])"
  by code_simp

end
